theory Spec2Isabelle
  imports Main
begin

section \<open>Values shared by the bot's methods\<close>

type_synonym member = string
type_synonym channel = string

text \<open>
  How an awaited call or a property access can fail: \<open>TypeError\<close> is a property read
  or written on \<open>undefined\<close>; \<open>Rejected\<close> is an awaited promise that rejects. Neither
  \<open>initStandup\<close> nor the click handlers contain a \<open>try\<close>, so either one ends the
  function at that point.
\<close>

datatype error = TypeError | Rejected

datatype 'a outcome = Resolved 'a | Rejects

text \<open>
  JavaScript truthiness of a value that is a string or \<open>undefined\<close>: \<open>undefined\<close>
  and the empty string are falsy.
\<close>

fun truthy :: "string option \<Rightarrow> bool" where
  "truthy None = False"
| "truthy (Some s) = (s \<noteq> [])"

subsection \<open>Message payloads\<close>

record text_obj =
  text_type :: string
  text_body :: string

record button =
  button_type :: string
  button_text :: text_obj
  action_id :: string

record block =
  block_type :: string
  block_text :: text_obj
  accessory :: "button option"

record content =
  msg_text :: string
  msg_blocks :: "block list"

subsection \<open>Conversation state\<close>

text \<open>\<open>{ ts: string }\<close>, an element of a \<open>botMessages\<close> log.\<close>

record message =
  ts :: string

record botMessages =
  INIT :: "message list"

text \<open>
  One entry of \<open>conversationState.users\<close>. The source reads and writes
  \<open>botMessages.INIT\<close> and \<open>answers\<close> (\<open>None\<close> is \<open>null\<close>); \<open>rest\<close> stands for
  the fields of the entry that the three functions never name.
\<close>

record ('a, 'z) member_conv =
  botMessages :: botMessages
  answers :: "'a option"
  rest :: 'z

record ('a, 'z) conversation_state =
  users :: "member \<rightharpoonup> ('a, 'z) member_conv"

text \<open>
  \<open>BOT\<close>: \<open>conversationState\<close> is a reference to the state object (an address of the
  heap below), so that copying the field copies the reference, not the object.
\<close>

record bot =
  conversationState :: nat
  members :: "member list"
  notButtonId :: string
  startButtonId :: string

subsection \<open>Calls that leave the process\<close>

text \<open>
  Each call is logged with what it returned. \<open>Send\<close> is \<open>botStateMachine.send\<close>;
  \<open>Ack\<close> is the \<open>ack\<close> callback of a click handler.
\<close>

datatype event =
    Send string
  | Connect "unit outcome"
  | AddUserMeta member "unit outcome"
  | OpenConversation member "string option outcome"
  | UpdateMessage channel string content "unit outcome"
  | PostMessage channel content "string option outcome"
  | Ack "unit outcome"
  | StartStandup channel string member "unit outcome"

record ('a, 'z) world =
  heap :: "nat \<rightharpoonup> ('a, 'z) conversation_state"
  trace :: "event list"

text \<open>
  The helpers that the module imports, and the \<open>StandupBot\<close> class, are not at hand. They
  are parameters: every \<open>_r\<close> field answers one awaited call, given the calls made so far.
  \<^item> \<open>connect\<close>, \<open>openConversation\<close>, \<open>updateMessage\<close>, \<open>postMessage\<close> and \<open>ack\<close>
    resolve or reject, and leave the conversation state alone; \<open>openConversation\<close>
    resolves to a channel id or \<open>undefined\<close>, \<open>postMessage\<close> to the \<open>ts\<close> of the posted
    message or to nothing.
  \<^item> \<open>addUserMeta(BOT, member)\<close> resolves to an update of the \<open>rest\<close> fields of that
    member's entry, or rejects: it is taken to touch neither \<open>botMessages\<close> nor
    \<open>answers\<close>, nor another member's entry.
  \<^item> \<open>startStandup\<close> resolves to a new heap, or rejects.
  \<^item> \<open>new_answers\<close>, \<open>new_rest\<close>: the \<open>answers\<close> and \<open>rest\<close> of a created entry.
  \<^item> \<open>notWorking_text\<close>: the wording that \<open>notWorking\<close> writes into the clicked message.
\<close>

record ('a, 'z) deps =
  new_answers :: "'a option"
  new_rest :: 'z
  connect_r :: "event list \<Rightarrow> unit outcome"
  addUserMeta_r :: "event list \<Rightarrow> member \<Rightarrow> ('z \<Rightarrow> 'z) outcome"
  openConversation_r :: "event list \<Rightarrow> member \<Rightarrow> string option outcome"
  updateMessage_r :: "event list \<Rightarrow> channel \<Rightarrow> string \<Rightarrow> content \<Rightarrow> unit outcome"
  postMessage_r :: "event list \<Rightarrow> channel \<Rightarrow> content \<Rightarrow> string option outcome"
  ack_r :: "event list \<Rightarrow> unit outcome"
  notWorking_text :: string
  startStandup_r :: "event list \<Rightarrow> channel \<Rightarrow> string \<Rightarrow> member \<Rightarrow>
    (nat \<rightharpoonup> ('a, 'z) conversation_state) \<Rightarrow> (nat \<rightharpoonup> ('a, 'z) conversation_state) outcome"

definition emit :: "event \<Rightarrow> ('a, 'z) world \<Rightarrow> ('a, 'z) world" where
  "emit e w = w\<lparr>trace := trace w @ [e]\<rparr>"

definition get_user :: "('a, 'z) world \<Rightarrow> nat \<Rightarrow> member \<Rightarrow> ('a, 'z) member_conv option" where
  "get_user w a m = (case heap w a of None \<Rightarrow> None | Some cs \<Rightarrow> users cs m)"

text \<open>\<open>state.users[m]?.f\<close>: nothing happens when the entry is missing.\<close>

definition map_user :: "nat \<Rightarrow> member \<Rightarrow> (('a, 'z) member_conv \<Rightarrow> ('a, 'z) member_conv)
    \<Rightarrow> ('a, 'z) world \<Rightarrow> ('a, 'z) world" where
  "map_user a m f w =
     (case heap w a of
        None \<Rightarrow> w
      | Some cs \<Rightarrow>
          (case users cs m of
             None \<Rightarrow> w
           | Some c \<Rightarrow> w\<lparr>heap := (heap w)(a \<mapsto> cs\<lparr>users := (users cs)(m \<mapsto> f c)\<rparr>)\<rparr>))"

text \<open>
  Modelled from the spec: \<open>createConversationStateMember\<close> (\<open>./conversationState\<close>) is
  missing. A created entry holds an empty init message log; its other fields are the
  parameters \<open>new_answers\<close> and \<open>new_rest\<close>.
\<close>

definition createConversationStateMember :: "('a, 'z) deps \<Rightarrow> ('a, 'z) member_conv" where
  "createConversationStateMember D =
     \<lparr>botMessages = \<lparr>INIT = []\<rparr>, answers = new_answers D, rest = new_rest D\<rparr>"

section \<open>initStandup\<close>

text \<open>The apostrophe of the greeting is U+2019, written here as its three UTF-8 bytes.\<close>

definition greeting :: string where
  "greeting = ''Hello mate :wave:, it'' @ [CHR 0xE2, CHR 0x80, CHR 0x99] @ ''s standup time!''"

definition placeholder :: content where
  "placeholder =
     \<lparr>msg_text = ''---'',
      msg_blocks =
        [\<lparr>block_type = ''section'',
          block_text = \<lparr>text_type = ''mrkdwn'', text_body = ''---''\<rparr>,
          accessory = None\<rparr>]\<rparr>"

definition question :: "bot \<Rightarrow> content" where
  "question BOT =
     \<lparr>msg_text = greeting,
      msg_blocks =
        [\<lparr>block_type = ''section'',
          block_text = \<lparr>text_type = ''mrkdwn'', text_body = greeting\<rparr>,
          accessory = Some
            \<lparr>button_type = ''button'',
             button_text = \<lparr>text_type = ''plain_text'', text_body = ''Not Working Today''\<rparr>,
             action_id = notButtonId BOT\<rparr>\<rparr>,
         \<lparr>block_type = ''section'',
          block_text = \<lparr>text_type = ''mrkdwn'', text_body = ''Shall we? :point_right:''\<rparr>,
          accessory = Some
            \<lparr>button_type = ''button'',
             button_text = \<lparr>text_type = ''plain_text'', text_body = ''Start Standup!''\<rparr>,
             action_id = startButtonId BOT\<rparr>\<rparr>]\<rparr>"

text \<open>
  Lines 46 to 88 of the loop body: post the question, skip the member when no \<open>ts\<close>
  came back, otherwise push \<open>{ ts }\<close> on the member's \<open>INIT\<close> log.
\<close>

definition postQuestion :: "('a, 'z) deps \<Rightarrow> bot \<Rightarrow> member \<Rightarrow> channel \<Rightarrow> ('a, 'z) world
    \<Rightarrow> error option \<times> ('a, 'z) world" where
  "postQuestion D BOT member channel w =
     (let initMessage = postMessage_r D (trace w) channel (question BOT);
          w1 = emit (PostMessage channel (question BOT) initMessage) w
      in case initMessage of
           Rejects \<Rightarrow> (Some Rejected, w1)
         | Resolved None \<Rightarrow> (None, w1)
         | Resolved (Some t) \<Rightarrow>
             if t = [] then (None, w1)
             else (None, map_user (conversationState BOT) member
                     (\<lambda>c. c\<lparr>botMessages := (botMessages c)\<lparr>INIT := INIT (botMessages c) @ [\<lparr>ts = t\<rparr>]\<rparr>\<rparr>)
                     w1))"

text \<open>
  Lines 26 to 43: when the state behind \<open>prevConversationState\<close> holds a first \<open>INIT\<close>
  message with a truthy \<open>ts\<close> for the member, that message is edited to the placeholder.
\<close>

definition checkPrevious :: "('a, 'z) deps \<Rightarrow> nat \<Rightarrow> member \<Rightarrow> channel \<Rightarrow> ('a, 'z) world
    \<Rightarrow> error option \<times> ('a, 'z) world" where
  "checkPrevious D prevConversationState member channel w =
     (case heap w prevConversationState of
        None \<Rightarrow> (Some TypeError, w)
      | Some prev \<Rightarrow>
          (case users prev member of
             None \<Rightarrow> (None, w)
           | Some c \<Rightarrow>
               (case INIT (botMessages c) of
                  [] \<Rightarrow> (None, w)
                | m0 # _ \<Rightarrow>
                    if ts m0 = [] then (None, w)
                    else
                      (let r = updateMessage_r D (trace w) channel (ts m0) placeholder;
                           w1 = emit (UpdateMessage channel (ts m0) placeholder r) w
                       in case r of
                            Rejects \<Rightarrow> (Some Rejected, w1)
                          | Resolved _ \<Rightarrow> (None, w1)))))"

text \<open>One iteration of the loop over \<open>BOT.members\<close> (lines 16 to 89).\<close>

definition initMember :: "('a, 'z) deps \<Rightarrow> bot \<Rightarrow> nat \<Rightarrow> member \<Rightarrow> ('a, 'z) world
    \<Rightarrow> error option \<times> ('a, 'z) world" where
  "initMember D BOT prevConversationState member w =
     (case heap w (conversationState BOT) of
        None \<Rightarrow> (Some TypeError, w)
      | Some cs \<Rightarrow>
          (let w1 = w\<lparr>heap := (heap w)(conversationState BOT \<mapsto>
                      cs\<lparr>users := (users cs)(member \<mapsto> createConversationStateMember D)\<rparr>)\<rparr>;
               meta = addUserMeta_r D (trace w1) member;
               w2 = emit (AddUserMeta member (map_outcome (\<lambda>_. ()) meta)) w1
           in case meta of
                Rejects \<Rightarrow> (Some Rejected, w2)
              | Resolved f \<Rightarrow>
                  (let w3 = map_user (conversationState BOT) member (rest_update f) w2;
                       opened = openConversation_r D (trace w3) member;
                       w4 = emit (OpenConversation member opened) w3
                   in case opened of
                        Rejects \<Rightarrow> (Some Rejected, w4)
                      | Resolved None \<Rightarrow> (None, w4)
                      | Resolved (Some channel) \<Rightarrow>
                          if channel = [] then (None, w4)
                          else
                            (case checkPrevious D prevConversationState member channel w4 of
                               (Some e, w5) \<Rightarrow> (Some e, w5)
                             | (None, w5) \<Rightarrow> postQuestion D BOT member channel w5))))"

fun initLoop :: "('a, 'z) deps \<Rightarrow> bot \<Rightarrow> nat \<Rightarrow> member list \<Rightarrow> ('a, 'z) world
    \<Rightarrow> error option \<times> ('a, 'z) world" where
  "initLoop D BOT prevConversationState [] w = (None, w)"
| "initLoop D BOT prevConversationState (member # ms) w =
     (case initMember D BOT prevConversationState member w of
        (Some e, w') \<Rightarrow> (Some e, w')
      | (None, w') \<Rightarrow> initLoop D BOT prevConversationState ms w')"

definition initStandup :: "('a, 'z) deps \<Rightarrow> bot \<Rightarrow> ('a, 'z) world
    \<Rightarrow> error option \<times> ('a, 'z) world" where
  "initStandup D BOT w =
     (let w1 = emit (Send ''INIT'') w;
          connected = connect_r D (trace w1);
          w2 = emit (Connect connected) w1
      in case connected of
           Rejects \<Rightarrow> (Some Rejected, w2)
         | Resolved _ \<Rightarrow>
             (let prevConversationState = conversationState BOT
              in case initLoop D BOT prevConversationState (members BOT) w2 of
                   (Some e, w3) \<Rightarrow> (Some e, w3)
                 | (None, w3) \<Rightarrow> (None, emit (Send ''INIT_DONE'') w3)))"

section \<open>The click handlers\<close>

text \<open>
  The \<open>body\<close> of an interaction event, as far as the handlers read it:
  \<open>channel_id\<close> is \<open>body?.channel?.id\<close>; \<open>message_ts\<close> is \<open>None\<close> when
  \<open>body.message\<close> is missing and \<open>Some None\<close> when the message has no \<open>ts\<close>;
  \<open>user_id\<close> is \<open>None\<close> when \<open>body.user\<close> is missing. The handler receives
  \<open>None\<close> when \<open>body\<close> itself is \<open>undefined\<close>.
\<close>

record body =
  channel_id :: "string option"
  message_ts :: "string option option"
  user_id :: "string option"

text \<open>
  Modelled from the spec: \<open>notWorking\<close> (\<open>./110_notWorking\<close>) is missing. It edits the
  message \<open>(channel, ts)\<close> to a neutral acknowledgment: one \<open>updateMessage\<close> call whose
  content, like the placeholder of \<open>initStandup\<close>, is a single section without button;
  the wording is the parameter \<open>notWorking_text\<close>.
\<close>

definition notWorking_content :: "('a, 'z) deps \<Rightarrow> content" where
  "notWorking_content D =
     \<lparr>msg_text = notWorking_text D,
      msg_blocks =
        [\<lparr>block_type = ''section'',
          block_text = \<lparr>text_type = ''mrkdwn'', text_body = notWorking_text D\<rparr>,
          accessory = None\<rparr>]\<rparr>"

definition notWorking :: "('a, 'z) deps \<Rightarrow> channel \<Rightarrow> string \<Rightarrow> ('a, 'z) world
    \<Rightarrow> error option \<times> ('a, 'z) world" where
  "notWorking D channel t w =
     (let r = updateMessage_r D (trace w) channel t (notWorking_content D);
          w1 = emit (UpdateMessage channel t (notWorking_content D) r) w
      in case r of Rejects \<Rightarrow> (Some Rejected, w1) | Resolved _ \<Rightarrow> (None, w1))"

definition notWorkingClickHandler :: "('a, 'z) deps \<Rightarrow> bot \<Rightarrow> body option \<Rightarrow> ('a, 'z) world
    \<Rightarrow> error option \<times> ('a, 'z) world" where
  "notWorkingClickHandler D BOT bd w =
     (let acked = ack_r D (trace w);
          w1 = emit (Ack acked) w
      in case acked of
           Rejects \<Rightarrow> (Some Rejected, w1)
         | Resolved _ \<Rightarrow>
             (let channel = (case bd of None \<Rightarrow> None | Some b \<Rightarrow> channel_id b)
              in case (case bd of None \<Rightarrow> None | Some b \<Rightarrow> message_ts b) of
                   None \<Rightarrow> (Some TypeError, w1)
                 | Some t \<Rightarrow>
                     if \<not> truthy channel \<or> \<not> truthy t then (None, w1)
                     else
                       (case (channel, t) of
                          (Some ch, Some tv) \<Rightarrow>
                            (case notWorking D ch tv w1 of
                               (Some e, w2) \<Rightarrow> (Some e, w2)
                             | (None, w2) \<Rightarrow>
                                 (case (case bd of None \<Rightarrow> None | Some b \<Rightarrow> user_id b) of
                                    None \<Rightarrow> (Some TypeError, w2)
                                  | Some u \<Rightarrow>
                                      (case get_user w2 (conversationState BOT) u of
                                         None \<Rightarrow> (Some TypeError, w2)
                                       | Some c \<Rightarrow>
                                           (None, emit (Send ''NOT_WORKING'')
                                              (map_user (conversationState BOT) u
                                                 (\<lambda>c. c\<lparr>answers := None\<rparr>) w2)))))
                        | _ \<Rightarrow> (None, w1))))"

text \<open>
  \<open>startStandup\<close> (\<open>./120_startStandup\<close>) is missing: the parameter \<open>startStandup_r\<close>
  gives the heap it leaves, or rejects.
\<close>

definition startStandupClickHandler :: "('a, 'z) deps \<Rightarrow> bot \<Rightarrow> body option \<Rightarrow> ('a, 'z) world
    \<Rightarrow> error option \<times> ('a, 'z) world" where
  "startStandupClickHandler D BOT bd w =
     (let acked = ack_r D (trace w);
          w1 = emit (Ack acked) w
      in case acked of
           Rejects \<Rightarrow> (Some Rejected, w1)
         | Resolved _ \<Rightarrow>
             (let channel = (case bd of None \<Rightarrow> None | Some b \<Rightarrow> channel_id b)
              in case (case bd of None \<Rightarrow> None | Some b \<Rightarrow> message_ts b) of
                   None \<Rightarrow> (Some TypeError, w1)
                 | Some t \<Rightarrow>
                     if \<not> truthy channel \<or> \<not> truthy t then (None, w1)
                     else
                       (case (channel, t) of
                          (Some ch, Some tv) \<Rightarrow>
                            (case (case bd of None \<Rightarrow> None | Some b \<Rightarrow> user_id b) of
                               None \<Rightarrow> (Some TypeError, w1)
                             | Some u \<Rightarrow>
                                 (let r = startStandup_r D (trace w1) ch tv u (heap w1);
                                      w2 = emit (StartStandup ch tv u (map_outcome (\<lambda>_. ()) r)) w1
                                  in case r of
                                       Rejects \<Rightarrow> (Some Rejected, w2)
                                     | Resolved h \<Rightarrow> (None, w2\<lparr>heap := h\<rparr>)))
                        | _ \<Rightarrow> (None, w1))))"

section \<open>The standup list page\<close>

record standup =
  name :: string

datatype node = CreateButton string string | Entry string

text \<open>
  \<open>fetchStandups\<close>: the argument is what \<open>db.select().from(Standups)\<close> does, rows or
  a thrown \<open>'e\<close>; the result is what the function returns (\<open>Inl\<close> would be a raise) and
  what it wrote with \<open>console.error\<close>.
\<close>

definition fetchStandups :: "'e + standup list \<Rightarrow> ('e + standup list) \<times> 'e list" where
  "fetchStandups query =
     (case query of
        Inr rows \<Rightarrow> (Inr rows, [])
      | Inl e \<Rightarrow> (Inr [], [e]))"

definition StandupList :: "'e + standup list \<Rightarrow> 'e + node list" where
  "StandupList query =
     (case fst (fetchStandups query) of
        Inl e \<Rightarrow> Inl e
      | Inr standups \<Rightarrow>
          Inr (CreateButton ''/standups/create'' ''Create New Standup'' # map (\<lambda>s. Entry (name s)) standups))"

section \<open>Vocabulary for the properties\<close>

text \<open>
  The calls one pass over the members \<open>M\<close> may issue: \<open>addUserMeta\<close> and
  \<open>openConversation\<close> for a member of \<open>M\<close>, and \<open>postMessage\<close> with the question.
\<close>

fun init_event :: "bot \<Rightarrow> member set \<Rightarrow> event \<Rightarrow> bool" where
  "init_event BOT M (AddUserMeta m r) = (m \<in> M)"
| "init_event BOT M (OpenConversation m r) = (m \<in> M)"
| "init_event BOT M (PostMessage ch q r) = (q = question BOT)"
| "init_event BOT M _ = False"

subsection \<open>Sample inputs\<close>

text \<open>
  A gateway on which every call succeeds: the conversation with member \<open>m\<close> is
  \<open>D-m\<close>, a message posted to channel \<open>ch\<close> gets the timestamp \<open>ts-ch\<close>.
\<close>

definition sample_deps :: "(string list, unit) deps" where
  "sample_deps =
     \<lparr>new_answers = Some [], new_rest = (),
      connect_r = (\<lambda>_. Resolved ()),
      addUserMeta_r = (\<lambda>_ _. Resolved id),
      openConversation_r = (\<lambda>_ m. Resolved (Some (''D-'' @ m))),
      updateMessage_r = (\<lambda>_ _ _ _. Resolved ()),
      postMessage_r = (\<lambda>_ ch _. Resolved (Some (''ts-'' @ ch))),
      ack_r = (\<lambda>_. Resolved ()),
      notWorking_text = ''Not working today'',
      startStandup_r = (\<lambda>_ _ _ _ h. Resolved h)\<rparr>"

text \<open>The same gateway, but a post to \<open>D-U1\<close> returns no message.\<close>

definition post_fails_deps :: "(string list, unit) deps" where
  "post_fails_deps =
     sample_deps\<lparr>postMessage_r :=
       (\<lambda>_ ch _. if ch = ''D-U1'' then Resolved None else Resolved (Some (''ts-'' @ ch)))\<rparr>"

text \<open>The same gateway, but a post to \<open>D-U1\<close> rejects.\<close>

definition post_rejects_deps :: "(string list, unit) deps" where
  "post_rejects_deps =
     sample_deps\<lparr>postMessage_r :=
       (\<lambda>_ ch _. if ch = ''D-U1'' then Rejects else Resolved (Some (''ts-'' @ ch)))\<rparr>"

text \<open>The same gateway, but no conversation can be opened with \<open>U1\<close>.\<close>

definition no_channel_deps :: "(string list, unit) deps" where
  "no_channel_deps =
     sample_deps\<lparr>openConversation_r :=
       (\<lambda>_ m. if m = ''U1'' then Resolved None else Resolved (Some (''D-'' @ m)))\<rparr>"

text \<open>The same gateway, but every \<open>updateMessage\<close> rejects.\<close>

definition edit_rejects_deps :: "(string list, unit) deps" where
  "edit_rejects_deps = sample_deps\<lparr>updateMessage_r := (\<lambda>_ _ _ _. Rejects)\<rparr>"

definition sample_bot :: bot where
  "sample_bot =
     \<lparr>conversationState = 0, members = [''U1'', ''U2''],
      notButtonId = ''not_working'', startButtonId = ''start_standup''\<rparr>"

definition empty_world :: "(string list, unit) world" where
  "empty_world = \<lparr>heap = [0 \<mapsto> \<lparr>users = Map.empty\<rparr>], trace = []\<rparr>"

text \<open>
  A state recovered from an interrupted run: \<open>U1\<close> still holds the prompt \<open>100.1\<close>
  and has not chosen yet.
\<close>

definition recovered_world :: "(string list, unit) world" where
  "recovered_world =
     \<lparr>heap = [0 \<mapsto> \<lparr>users = [''U1'' \<mapsto>
         \<lparr>botMessages = \<lparr>INIT = [\<lparr>ts = ''100.1''\<rparr>]\<rparr>, answers = Some [], rest = ()\<rparr>]\<rparr>],
      trace = []\<rparr>"

text \<open>A state after a run: \<open>U1\<close> holds the prompt \<open>ts-D-U1\<close> and has not chosen yet.\<close>

definition awaiting_world :: "(string list, unit) world" where
  "awaiting_world =
     \<lparr>heap = [0 \<mapsto> \<lparr>users = [''U1'' \<mapsto>
         \<lparr>botMessages = \<lparr>INIT = [\<lparr>ts = ''ts-D-U1''\<rparr>]\<rparr>, answers = Some [], rest = ()\<rparr>]\<rparr>],
      trace = []\<rparr>"

text \<open>The same state after \<open>U1\<close> has opted out.\<close>

definition opted_out_world :: "(string list, unit) world" where
  "opted_out_world =
     \<lparr>heap = [0 \<mapsto> \<lparr>users = [''U1'' \<mapsto>
         \<lparr>botMessages = \<lparr>INIT = [\<lparr>ts = ''ts-D-U1''\<rparr>]\<rparr>, answers = None, rest = ()\<rparr>]\<rparr>],
      trace = []\<rparr>"

text \<open>The body of a click on message \<open>t\<close> of channel \<open>ch\<close> by user \<open>u\<close>.\<close>

definition click :: "string \<Rightarrow> string \<Rightarrow> string \<Rightarrow> body" where
  "click ch t u = \<lparr>channel_id = Some ch, message_ts = Some (Some t), user_id = Some u\<rparr>"

section \<open>The loop body and the loop\<close>

lemma initMember_eq:
  assumes "heap w (conversationState BOT) = Some cs"
  shows "initMember D BOT (conversationState BOT) m w =
    (let fresh = createConversationStateMember D;
         st0 = (\<lambda>c evs. w\<lparr>heap := (heap w)(conversationState BOT \<mapsto> cs\<lparr>users := (users cs)(m \<mapsto> c)\<rparr>),
                            trace := trace w @ evs\<rparr>)
     in case addUserMeta_r D (trace w) m of
          Rejects \<Rightarrow> (Some Rejected, st0 fresh [AddUserMeta m Rejects])
        | Resolved f \<Rightarrow>
           (let c1 = fresh\<lparr>rest := f (new_rest D)\<rparr>; e1 = AddUserMeta m (Resolved ()) in
            case openConversation_r D (trace w @ [e1]) m of
              Rejects \<Rightarrow> (Some Rejected, st0 c1 [e1, OpenConversation m Rejects])
            | Resolved None \<Rightarrow> (None, st0 c1 [e1, OpenConversation m (Resolved None)])
            | Resolved (Some ch) \<Rightarrow>
                (let e2 = OpenConversation m (Resolved (Some ch)) in
                 if ch = [] then (None, st0 c1 [e1, e2])
                 else
                   (case postMessage_r D (trace w @ [e1, e2]) ch (question BOT) of
                      Rejects \<Rightarrow> (Some Rejected, st0 c1 [e1, e2, PostMessage ch (question BOT) Rejects])
                    | Resolved None \<Rightarrow> (None, st0 c1 [e1, e2, PostMessage ch (question BOT) (Resolved None)])
                    | Resolved (Some t) \<Rightarrow>
                        (None, st0 (if t = [] then c1 else c1\<lparr>botMessages := \<lparr>INIT = [\<lparr>ts = t\<rparr>]\<rparr>\<rparr>)
                                   [e1, e2, PostMessage ch (question BOT) (Resolved (Some t))])))))"
  using assms
  by (simp add: initMember_def checkPrevious_def postQuestion_def map_user_def emit_def
        createConversationStateMember_def Let_def
      split: outcome.splits option.splits)

lemma init_event_mono: "init_event BOT M e \<Longrightarrow> M \<subseteq> N \<Longrightarrow> init_event BOT N e"
  by (cases e) auto

lemma initMember_no_state:
  "heap w (conversationState BOT) = None \<Longrightarrow> initMember D BOT p m w = (Some TypeError, w)"
  by (simp add: initMember_def)

lemma initMember_cases:
  assumes "initMember D BOT (conversationState BOT) m w = (st, w')"
    and "heap w (conversationState BOT) = Some cs"
  shows "\<exists>c r0 evs f. w' = w\<lparr>heap := (heap w)(conversationState BOT \<mapsto> cs\<lparr>users := (users cs)(m \<mapsto> c)\<rparr>),
                             trace := trace w @ AddUserMeta m r0 # evs\<rparr>
      \<and> answers c = new_answers D \<and> rest c = f (new_rest D)
      \<and> ((st = Some Rejected \<and> r0 = Rejects \<and> evs = [] \<and> INIT (botMessages c) = [])
         \<or> (st = Some Rejected \<and> r0 = Resolved () \<and> evs = [OpenConversation m Rejects] \<and> INIT (botMessages c) = [])
         \<or> (st = None \<and> r0 = Resolved () \<and> (\<exists>r. evs = [OpenConversation m (Resolved r)] \<and> \<not> truthy r) \<and> INIT (botMessages c) = [])
         \<or> (st = Some Rejected \<and> r0 = Resolved () \<and> (\<exists>ch. ch \<noteq> [] \<and> evs = [OpenConversation m (Resolved (Some ch)), PostMessage ch (question BOT) Rejects]) \<and> INIT (botMessages c) = [])
         \<or> (st = None \<and> r0 = Resolved () \<and> (\<exists>ch r. ch \<noteq> [] \<and> evs = [OpenConversation m (Resolved (Some ch)), PostMessage ch (question BOT) (Resolved r)] \<and> \<not> truthy r) \<and> INIT (botMessages c) = [])
         \<or> (st = None \<and> r0 = Resolved () \<and> (\<exists>ch t. ch \<noteq> [] \<and> t \<noteq> [] \<and> evs = [OpenConversation m (Resolved (Some ch)), PostMessage ch (question BOT) (Resolved (Some t))] \<and> INIT (botMessages c) = [\<lparr>ts = t\<rparr>])))"
proof -
  let ?fresh = "createConversationStateMember D"
  let ?e1 = "AddUserMeta m (Resolved ())"
  show ?thesis
  proof (cases "addUserMeta_r D (trace w) m")
    case Rejects
    with assms have "st = Some Rejected"
      and "w' = w\<lparr>heap := (heap w)(conversationState BOT \<mapsto> cs\<lparr>users := (users cs)(m \<mapsto> ?fresh)\<rparr>),
                    trace := trace w @ [AddUserMeta m Rejects]\<rparr>"
      by (auto simp: initMember_eq Let_def)
    then show ?thesis
      by (intro exI[of _ ?fresh] exI[of _ Rejects] exI[of _ "[]"] exI[of _ id])
         (simp add: createConversationStateMember_def)
  next
    case (Resolved f)
    let ?c1 = "?fresh\<lparr>rest := f (new_rest D)\<rparr>"
    show ?thesis
    proof (cases "openConversation_r D (trace w @ [?e1]) m")
      case Rejects
      with assms Resolved have "st = Some Rejected"
        and "w' = w\<lparr>heap := (heap w)(conversationState BOT \<mapsto> cs\<lparr>users := (users cs)(m \<mapsto> ?c1)\<rparr>),
                      trace := trace w @ [?e1, OpenConversation m Rejects]\<rparr>"
        by (auto simp: initMember_eq Let_def)
      then show ?thesis
        by (intro exI[of _ ?c1] exI[of _ "Resolved ()"] exI[of _ "[OpenConversation m Rejects]"] exI[of _ f])
           (simp add: createConversationStateMember_def)
    next
      case R2: (Resolved oc)
      let ?e2 = "OpenConversation m (Resolved oc)"
      show ?thesis
      proof (cases "truthy oc")
        case False
        with assms Resolved R2 have "st = None"
          and "w' = w\<lparr>heap := (heap w)(conversationState BOT \<mapsto> cs\<lparr>users := (users cs)(m \<mapsto> ?c1)\<rparr>),
                        trace := trace w @ [?e1, ?e2]\<rparr>"
          by (cases oc; auto simp: initMember_eq Let_def)+
        with False show ?thesis
          by (intro exI[of _ ?c1] exI[of _ "Resolved ()"] exI[of _ "[?e2]"] exI[of _ f])
             (simp add: createConversationStateMember_def)
      next
        case True
        then obtain ch where ch: "oc = Some ch" "ch \<noteq> []" by (cases oc) auto
        let ?q = "question BOT"
        show ?thesis
        proof (cases "postMessage_r D (trace w @ [?e1, ?e2]) ch ?q")
          case Rejects
          with assms Resolved R2 ch have "st = Some Rejected"
            and "w' = w\<lparr>heap := (heap w)(conversationState BOT \<mapsto> cs\<lparr>users := (users cs)(m \<mapsto> ?c1)\<rparr>),
                          trace := trace w @ [?e1, ?e2, PostMessage ch ?q Rejects]\<rparr>"
            by (auto simp: initMember_eq Let_def)
          with ch show ?thesis
            by (intro exI[of _ ?c1] exI[of _ "Resolved ()"] exI[of _ "[?e2, PostMessage ch ?q Rejects]"] exI[of _ f])
               (simp add: createConversationStateMember_def)
        next
          case R3: (Resolved pr)
          show ?thesis
          proof (cases "truthy pr")
            case False
            with assms Resolved R2 R3 ch have "st = None"
              and "w' = w\<lparr>heap := (heap w)(conversationState BOT \<mapsto> cs\<lparr>users := (users cs)(m \<mapsto> ?c1)\<rparr>),
                            trace := trace w @ [?e1, ?e2, PostMessage ch ?q (Resolved pr)]\<rparr>"
              by (cases pr; auto simp: initMember_eq Let_def)+
            with ch False show ?thesis
              by (intro exI[of _ ?c1] exI[of _ "Resolved ()"] exI[of _ "[?e2, PostMessage ch ?q (Resolved pr)]"] exI[of _ f])
                 (simp add: createConversationStateMember_def)
          next
            case True
            then obtain t where t: "pr = Some t" "t \<noteq> []" by (cases pr) auto
            let ?c2 = "?c1\<lparr>botMessages := \<lparr>INIT = [\<lparr>ts = t\<rparr>]\<rparr>\<rparr>"
            from assms Resolved R2 R3 ch t have "st = None"
              and "w' = w\<lparr>heap := (heap w)(conversationState BOT \<mapsto> cs\<lparr>users := (users cs)(m \<mapsto> ?c2)\<rparr>),
                            trace := trace w @ [?e1, ?e2, PostMessage ch ?q (Resolved pr)]\<rparr>"
              by (auto simp: initMember_eq Let_def)
            with ch t show ?thesis
              by (intro exI[of _ ?c2] exI[of _ "Resolved ()"] exI[of _ "[?e2, PostMessage ch ?q (Resolved pr)]"] exI[of _ f])
                 (simp add: createConversationStateMember_def)
          qed
        qed
      qed
    qed
  qed
qed

lemma initMember_frame:
  assumes "initMember D BOT (conversationState BOT) m w = (st, w')"
    and "heap w (conversationState BOT) = Some cs"
  shows "\<exists>cs' evs. heap w' (conversationState BOT) = Some cs'
      \<and> (\<forall>m'. m' \<noteq> m \<longrightarrow> users cs' m' = users cs m')
      \<and> trace w' = trace w @ evs \<and> (\<forall>e\<in>set evs. init_event BOT {m} e)"
  using initMember_cases[OF assms] by (elim exE conjE disjE) auto

lemma initMember_entry:
  assumes "initMember D BOT (conversationState BOT) m w = (st, w')"
    and "heap w (conversationState BOT) = Some cs"
  shows "\<exists>c f. get_user w' (conversationState BOT) m = Some c
      \<and> answers c = new_answers D \<and> rest c = f (new_rest D)
      \<and> (INIT (botMessages c) = [] \<or> (\<exists>t. t \<noteq> [] \<and> INIT (botMessages c) = [\<lparr>ts = t\<rparr>]))"
  using initMember_cases[OF assms] by (elim exE conjE disjE) (auto simp: get_user_def)

lemma initLoop_no_state:
  "heap w (conversationState BOT) = None \<Longrightarrow>
   initLoop D BOT p ms w = (if ms = [] then (None, w) else (Some TypeError, w))"
  by (cases ms) (simp_all add: initMember_no_state)

lemma initLoop_append:
  "initLoop D BOT p (ms1 @ ms2) w =
     (case initLoop D BOT p ms1 w of
        (Some e, w1) \<Rightarrow> (Some e, w1)
      | (None, w1) \<Rightarrow> initLoop D BOT p ms2 w1)"
  by (induction ms1 arbitrary: w) (auto split: prod.splits option.splits)

lemma initLoop_frame:
  assumes "initLoop D BOT (conversationState BOT) ms w = (st, w')"
    and "heap w (conversationState BOT) = Some cs"
  shows "\<exists>cs' evs. heap w' (conversationState BOT) = Some cs'
      \<and> (\<forall>m'. m' \<notin> set ms \<longrightarrow> users cs' m' = users cs m')
      \<and> trace w' = trace w @ evs \<and> (\<forall>e\<in>set evs. init_event BOT (set ms) e)"
  using assms
proof (induction ms arbitrary: w cs)
  case Nil
  then show ?case by simp
next
  case (Cons m ms)
  obtain st1 w1 where step: "initMember D BOT (conversationState BOT) m w = (st1, w1)"
    by (cases "initMember D BOT (conversationState BOT) m w")
  from initMember_frame[OF step Cons.prems(2)] obtain cs1 evs1 where
    f1: "heap w1 (conversationState BOT) = Some cs1"
        "\<forall>m'. m' \<noteq> m \<longrightarrow> users cs1 m' = users cs m'"
        "trace w1 = trace w @ evs1" "\<forall>e\<in>set evs1. init_event BOT {m} e"
    by blast
  from f1(4) have ev1: "\<forall>e\<in>set evs1. init_event BOT (set (m # ms)) e"
    by (auto intro: init_event_mono)
  show ?case
  proof (cases st1)
    case (Some e)
    with Cons.prems(1) step have "w' = w1" by simp
    with f1 ev1 show ?thesis by auto
  next
    case None
    with Cons.prems(1) step have "initLoop D BOT (conversationState BOT) ms w1 = (st, w')" by simp
    from Cons.IH[OF this f1(1)] obtain cs' evs where
      f2: "heap w' (conversationState BOT) = Some cs'"
          "\<forall>m'. m' \<notin> set ms \<longrightarrow> users cs' m' = users cs1 m'"
          "trace w' = trace w1 @ evs" "\<forall>e\<in>set evs. init_event BOT (set ms) e"
      by blast
    from f2(4) have ev2: "\<forall>e\<in>set evs. init_event BOT (set (m # ms)) e"
      by (auto intro: init_event_mono)
    have "trace w' = trace w @ (evs1 @ evs)" using f1(3) f2(3) by simp
    moreover have "\<forall>e\<in>set (evs1 @ evs). init_event BOT (set (m # ms)) e"
      using ev1 ev2 by auto
    moreover have "\<forall>m'. m' \<notin> set (m # ms) \<longrightarrow> users cs' m' = users cs m'"
      using f1(2) f2(2) by auto
    ultimately show ?thesis using f2(1) by blast
  qed
qed

lemma initLoop_first_event:
  assumes "initLoop D BOT (conversationState BOT) ms w = (st, w')"
    and "trace w' = trace w @ evs"
  shows "evs = [] \<or> (\<exists>m r evs'. evs = AddUserMeta m r # evs')"
proof (cases ms)
  case Nil
  with assms show ?thesis by simp
next
  case (Cons m ms')
  let ?a = "conversationState BOT"
  show ?thesis
  proof (cases "heap w ?a")
    case None
    from initLoop_no_state[OF this, of D ?a ms] assms Cons show ?thesis by simp
  next
    case (Some cs)
    obtain st1 w1 where step: "initMember D BOT ?a m w = (st1, w1)"
      by (cases "initMember D BOT ?a m w")
    from initMember_cases[OF step Some] obtain r0 e1 where
      t1: "trace w1 = trace w @ AddUserMeta m r0 # e1" by auto
    from initMember_frame[OF step Some] obtain cs1 where cs1: "heap w1 ?a = Some cs1" by blast
    have "\<exists>e2. trace w' = trace w1 @ e2"
    proof (cases st1)
      case (Some e)
      with assms(1) Cons step show ?thesis by simp
    next
      case None
      with assms(1) Cons step have "initLoop D BOT ?a ms' w1 = (st, w')" by simp
      from initLoop_frame[OF this cs1] show ?thesis by blast
    qed
    then obtain e2 where "trace w' = trace w1 @ e2" by blast
    with t1 assms(2) have "evs = AddUserMeta m r0 # e1 @ e2" by simp
    then show ?thesis by blast
  qed
qed

text \<open>The iteration of a member inside a loop that ran to its end (its last one, if the
  member is listed twice).\<close>

lemma initLoop_member:
  assumes "initLoop D BOT (conversationState BOT) ms w = (None, w')"
    and "heap w (conversationState BOT) = Some cs"
    and "m \<in> set ms"
  shows "\<exists>w1 w2 cs1 pre post.
      initMember D BOT (conversationState BOT) m w1 = (None, w2)
    \<and> heap w1 (conversationState BOT) = Some cs1
    \<and> trace w1 = trace w @ pre \<and> trace w' = trace w2 @ post
    \<and> get_user w' (conversationState BOT) m = get_user w2 (conversationState BOT) m
    \<and> (\<forall>e\<in>set post. init_event BOT (set ms - {m}) e)
    \<and> (\<forall>e\<in>set pre. init_event BOT (set ms) e)
    \<and> (distinct ms \<longrightarrow> (\<forall>e\<in>set pre. init_event BOT (set ms - {m}) e))
    \<and> (post = [] \<or> (\<exists>m' r post'. post = AddUserMeta m' r # post'))"
proof -
  let ?a = "conversationState BOT"
  from assms(3) obtain ms1 ms2 where ms: "ms = ms1 @ m # ms2" "m \<notin> set ms2"
    by (auto dest: split_list_last)
  obtain st1 w1 where l1: "initLoop D BOT ?a ms1 w = (st1, w1)"
    by (cases "initLoop D BOT ?a ms1 w")
  with assms(1) ms have st1: "st1 = None" and l2: "initLoop D BOT ?a (m # ms2) w1 = (None, w')"
    by (auto simp: initLoop_append split: option.splits)
  obtain st2 w2 where step: "initMember D BOT ?a m w1 = (st2, w2)"
    by (cases "initMember D BOT ?a m w1")
  with l2 have st2: "st2 = None" and l3: "initLoop D BOT ?a ms2 w2 = (None, w')"
    by (auto split: option.splits)
  from initLoop_frame[OF l1 assms(2)] obtain cs1 pre where
    f1: "heap w1 ?a = Some cs1" "trace w1 = trace w @ pre" "\<forall>e\<in>set pre. init_event BOT (set ms1) e"
    by blast
  from initMember_frame[OF step f1(1)] obtain cs2 where f2: "heap w2 ?a = Some cs2"
    by blast
  from initLoop_frame[OF l3 f2] obtain cs' post where
    f3: "heap w' ?a = Some cs'" "\<forall>m'. m' \<notin> set ms2 \<longrightarrow> users cs' m' = users cs2 m'"
        "trace w' = trace w2 @ post" "\<forall>e\<in>set post. init_event BOT (set ms2) e"
    by blast
  have same: "get_user w' ?a m = get_user w2 ?a m"
    using f2 f3(1,2) ms(2) by (simp add: get_user_def)
  have post: "\<forall>e\<in>set post. init_event BOT (set ms - {m}) e"
    using f3(4) ms by (auto intro: init_event_mono)
  have pre: "distinct ms \<longrightarrow> (\<forall>e\<in>set pre. init_event BOT (set ms - {m}) e)"
    using f1(3) ms by (auto intro: init_event_mono)
  have pre': "\<forall>e\<in>set pre. init_event BOT (set ms) e"
    using f1(3) ms by (auto intro: init_event_mono)
  have nxt: "post = [] \<or> (\<exists>m' r post'. post = AddUserMeta m' r # post')"
    by (rule initLoop_first_event[OF l3 f3(3)])
  from step st2 f1(1,2) f3(3) same post pre pre' nxt show ?thesis by blast
qed

lemma initStandup_unfold:
  "initStandup D BOT w =
     (case connect_r D (trace w @ [Send ''INIT'']) of
        Rejects \<Rightarrow> (Some Rejected, w\<lparr>trace := trace w @ [Send ''INIT'', Connect Rejects]\<rparr>)
      | Resolved u \<Rightarrow>
          (case initLoop D BOT (conversationState BOT) (members BOT)
                  (w\<lparr>trace := trace w @ [Send ''INIT'', Connect (Resolved ())]\<rparr>) of
             (Some e, w3) \<Rightarrow> (Some e, w3)
           | (None, w3) \<Rightarrow> (None, w3\<lparr>trace := trace w3 @ [Send ''INIT_DONE'']\<rparr>)))"
  by (simp add: initStandup_def emit_def Let_def split: outcome.splits prod.splits option.splits)

lemma initStandup_returns:
  assumes "initStandup D BOT w = (None, w')"
  shows "\<exists>w3. initLoop D BOT (conversationState BOT) (members BOT)
                 (w\<lparr>trace := trace w @ [Send ''INIT'', Connect (Resolved ())]\<rparr>) = (None, w3)
           \<and> w' = w3\<lparr>trace := trace w3 @ [Send ''INIT_DONE'']\<rparr>"
  using assms unfolding initStandup_unfold
  by (auto split: outcome.splits prod.splits option.splits)

lemma initMember_done:
  assumes "initMember D BOT (conversationState BOT) m w = (None, w')"
    and "heap w (conversationState BOT) = Some cs"
  shows "\<exists>c evs f. w' = w\<lparr>heap := (heap w)(conversationState BOT \<mapsto> cs\<lparr>users := (users cs)(m \<mapsto> c)\<rparr>),
                           trace := trace w @ AddUserMeta m (Resolved ()) # evs\<rparr>
      \<and> answers c = new_answers D \<and> rest c = f (new_rest D)
      \<and> ((\<exists>r. evs = [OpenConversation m (Resolved r)] \<and> \<not> truthy r \<and> INIT (botMessages c) = [])
         \<or> (\<exists>ch r. ch \<noteq> [] \<and> evs = [OpenConversation m (Resolved (Some ch)),
                                      PostMessage ch (question BOT) (Resolved r)]
              \<and> \<not> truthy r \<and> INIT (botMessages c) = [])
         \<or> (\<exists>ch t. ch \<noteq> [] \<and> t \<noteq> [] \<and> evs = [OpenConversation m (Resolved (Some ch)),
                                      PostMessage ch (question BOT) (Resolved (Some t))]
              \<and> INIT (botMessages c) = [\<lparr>ts = t\<rparr>]))"
proof -
  from initMember_cases[OF assms] obtain c r0 evs f where
    b: "w' = w\<lparr>heap := (heap w)(conversationState BOT \<mapsto> cs\<lparr>users := (users cs)(m \<mapsto> c)\<rparr>),
                trace := trace w @ AddUserMeta m r0 # evs\<rparr>"
       "answers c = new_answers D" "rest c = f (new_rest D)"
    and alt: "(r0 = Resolved () \<and> (\<exists>r. evs = [OpenConversation m (Resolved r)] \<and> \<not> truthy r) \<and> INIT (botMessages c) = [])
         \<or> (r0 = Resolved () \<and> (\<exists>ch r. ch \<noteq> [] \<and> evs = [OpenConversation m (Resolved (Some ch)), PostMessage ch (question BOT) (Resolved r)] \<and> \<not> truthy r) \<and> INIT (botMessages c) = [])
         \<or> (r0 = Resolved () \<and> (\<exists>ch t. ch \<noteq> [] \<and> t \<noteq> [] \<and> evs = [OpenConversation m (Resolved (Some ch)), PostMessage ch (question BOT) (Resolved (Some t))] \<and> INIT (botMessages c) = [\<lparr>ts = t\<rparr>]))"
    by auto
  from alt have r0: "r0 = Resolved ()" by blast
  from b(1) r0 have b1: "w' = w\<lparr>heap := (heap w)(conversationState BOT \<mapsto> cs\<lparr>users := (users cs)(m \<mapsto> c)\<rparr>),
                trace := trace w @ AddUserMeta m (Resolved ()) # evs\<rparr>" by simp
  from alt have "(\<exists>r. evs = [OpenConversation m (Resolved r)] \<and> \<not> truthy r \<and> INIT (botMessages c) = [])
         \<or> (\<exists>ch r. ch \<noteq> [] \<and> evs = [OpenConversation m (Resolved (Some ch)),
                                      PostMessage ch (question BOT) (Resolved r)]
              \<and> \<not> truthy r \<and> INIT (botMessages c) = [])
         \<or> (\<exists>ch t. ch \<noteq> [] \<and> t \<noteq> [] \<and> evs = [OpenConversation m (Resolved (Some ch)),
                                      PostMessage ch (question BOT) (Resolved (Some t))]
              \<and> INIT (botMessages c) = [\<lparr>ts = t\<rparr>])"
    by blast
  with b1 b(2,3) show ?thesis by blast
qed

lemma initLoop_member_done:
  assumes "initLoop D BOT (conversationState BOT) ms w = (None, w')"
    and "m \<in> set ms"
  shows "\<exists>c f pre seg post.
      get_user w' (conversationState BOT) m = Some c
    \<and> answers c = new_answers D \<and> rest c = f (new_rest D)
    \<and> trace w' = trace w @ pre @ AddUserMeta m (Resolved ()) # seg @ post
    \<and> (\<forall>e\<in>set post. init_event BOT (set ms - {m}) e)
    \<and> (\<forall>e\<in>set pre. init_event BOT (set ms) e)
    \<and> (distinct ms \<longrightarrow> (\<forall>e\<in>set pre. init_event BOT (set ms - {m}) e))
    \<and> ((\<exists>r. seg = [OpenConversation m (Resolved r)] \<and> \<not> truthy r \<and> INIT (botMessages c) = [])
       \<or> (\<exists>ch r. ch \<noteq> [] \<and> seg = [OpenConversation m (Resolved (Some ch)),
                                    PostMessage ch (question BOT) (Resolved r)]
            \<and> \<not> truthy r \<and> INIT (botMessages c) = [])
       \<or> (\<exists>ch t. ch \<noteq> [] \<and> t \<noteq> [] \<and> seg = [OpenConversation m (Resolved (Some ch)),
                                    PostMessage ch (question BOT) (Resolved (Some t))]
            \<and> INIT (botMessages c) = [\<lparr>ts = t\<rparr>]))"
proof -
  let ?a = "conversationState BOT"
  have "heap w ?a \<noteq> None"
  proof
    assume "heap w ?a = None"
    from initLoop_no_state[OF this, of D ?a ms] assms show False
      by (auto split: if_splits)
  qed
  then obtain cs where cs: "heap w ?a = Some cs" by auto
  from initLoop_member[OF assms(1) cs assms(2)] obtain w1 w2 cs1 pre post where
    d: "initMember D BOT ?a m w1 = (None, w2)" "heap w1 ?a = Some cs1"
       "trace w1 = trace w @ pre" "trace w' = trace w2 @ post"
       "get_user w' ?a m = get_user w2 ?a m"
       "\<forall>e\<in>set post. init_event BOT (set ms - {m}) e"
       "distinct ms \<longrightarrow> (\<forall>e\<in>set pre. init_event BOT (set ms - {m}) e)"
       "\<forall>e\<in>set pre. init_event BOT (set ms) e"
    by blast
  from initMember_done[OF d(1,2)] obtain c evs f where
    i: "w2 = w1\<lparr>heap := (heap w1)(?a \<mapsto> cs1\<lparr>users := (users cs1)(m \<mapsto> c)\<rparr>),
                trace := trace w1 @ AddUserMeta m (Resolved ()) # evs\<rparr>"
       "answers c = new_answers D" "rest c = f (new_rest D)"
       "(\<exists>r. evs = [OpenConversation m (Resolved r)] \<and> \<not> truthy r \<and> INIT (botMessages c) = [])
       \<or> (\<exists>ch r. ch \<noteq> [] \<and> evs = [OpenConversation m (Resolved (Some ch)),
                                    PostMessage ch (question BOT) (Resolved r)]
            \<and> \<not> truthy r \<and> INIT (botMessages c) = [])
       \<or> (\<exists>ch t. ch \<noteq> [] \<and> t \<noteq> [] \<and> evs = [OpenConversation m (Resolved (Some ch)),
                                    PostMessage ch (question BOT) (Resolved (Some t))]
            \<and> INIT (botMessages c) = [\<lparr>ts = t\<rparr>])"
    by blast
  have g: "get_user w' ?a m = Some c" using d(5) i(1) by (simp add: get_user_def)
  have t: "trace w' = trace w @ pre @ AddUserMeta m (Resolved ()) # evs @ post"
    using d(3,4) i(1) by simp
  from g i(2,3) t d(6,7,8) i(4) show ?thesis by blast
qed


lemma initMember_keeps:
  assumes "initMember D BOT (conversationState BOT) m0 w = (st, w')"
    and "heap w (conversationState BOT) = Some cs"
    and "get_user w (conversationState BOT) m = Some c"
    and "answers c = new_answers D"
  shows "\<exists>c'. get_user w' (conversationState BOT) m = Some c' \<and> answers c' = new_answers D"
proof (cases "m = m0")
  case True
  with initMember_entry[OF assms(1,2)] show ?thesis by blast
next
  case False
  from initMember_frame[OF assms(1,2)] obtain cs' where
    "heap w' (conversationState BOT) = Some cs'" "\<forall>m'. m' \<noteq> m0 \<longrightarrow> users cs' m' = users cs m'"
    by blast
  with False assms(2,3,4) show ?thesis by (auto simp: get_user_def)
qed

lemma initLoop_keeps:
  assumes "initLoop D BOT (conversationState BOT) ms w = (st, w')"
    and "heap w (conversationState BOT) = Some cs"
    and "get_user w (conversationState BOT) m = Some c"
    and "answers c = new_answers D"
  shows "\<exists>c'. get_user w' (conversationState BOT) m = Some c' \<and> answers c' = new_answers D"
  using assms
proof (induction ms arbitrary: w cs c)
  case Nil
  then show ?case by simp
next
  case (Cons m0 ms)
  obtain st1 w1 where step: "initMember D BOT (conversationState BOT) m0 w = (st1, w1)"
    by (cases "initMember D BOT (conversationState BOT) m0 w")
  from initMember_keeps[OF step Cons.prems(2,3,4)] obtain c1 where
    c1: "get_user w1 (conversationState BOT) m = Some c1" "answers c1 = new_answers D" by blast
  from initMember_frame[OF step Cons.prems(2)] obtain cs1 where
    cs1: "heap w1 (conversationState BOT) = Some cs1" by blast
  show ?case
  proof (cases st1)
    case (Some e)
    with Cons.prems(1) step have "w' = w1" by simp
    with c1 show ?thesis by blast
  next
    case None
    with Cons.prems(1) step have "initLoop D BOT (conversationState BOT) ms w1 = (st, w')" by simp
    from Cons.IH[OF this cs1 c1] show ?thesis .
  qed
qed

lemma initLoop_started:
  assumes "initLoop D BOT (conversationState BOT) ms w = (st, w')"
    and "AddUserMeta m r \<in> set (drop (length (trace w)) (trace w'))"
  shows "\<exists>c. get_user w' (conversationState BOT) m = Some c \<and> answers c = new_answers D"
  using assms
proof (induction ms arbitrary: w)
  case Nil
  then show ?case by simp
next
  case (Cons m0 ms)
  let ?a = "conversationState BOT"
  show ?case
  proof (cases "heap w ?a")
    case None
    from initLoop_no_state[OF this, of D ?a "m0 # ms"] Cons.prems show ?thesis by simp
  next
    case (Some cs)
    obtain st1 w1 where step: "initMember D BOT ?a m0 w = (st1, w1)"
      by (cases "initMember D BOT ?a m0 w")
    from initMember_frame[OF step Some] obtain cs1 evs1 where
      f1: "heap w1 ?a = Some cs1" "trace w1 = trace w @ evs1" "\<forall>e\<in>set evs1. init_event BOT {m0} e"
      by blast
    from initMember_entry[OF step Some] obtain c0 where
      c0: "get_user w1 ?a m0 = Some c0" "answers c0 = new_answers D" by blast
    show ?thesis
    proof (cases st1)
      case (Some e)
      with Cons.prems(1) step have w': "w' = w1" by simp
      with Cons.prems(2) f1(2) have "AddUserMeta m r \<in> set evs1" by simp
      with f1(3) have "m = m0" by fastforce
      with c0 w' show ?thesis by blast
    next
      case None
      with Cons.prems(1) step have rest: "initLoop D BOT ?a ms w1 = (st, w')" by simp
      from initLoop_frame[OF rest f1(1)] obtain evs2 where
        f2: "trace w' = trace w1 @ evs2" by blast
      from Cons.prems(2) f1(2) f2 have "AddUserMeta m r \<in> set evs1 \<or> AddUserMeta m r \<in> set evs2"
        by auto
      then show ?thesis
      proof
        assume "AddUserMeta m r \<in> set evs2"
        with f2 have "AddUserMeta m r \<in> set (drop (length (trace w1)) (trace w'))" by simp
        from Cons.IH[OF rest this] show ?thesis .
      next
        assume "AddUserMeta m r \<in> set evs1"
        with f1(3) have "m = m0" by fastforce
        with c0 initLoop_keeps[OF rest f1(1) c0] show ?thesis by blast
      qed
    qed
  qed
qed

lemma initLoop_events:
  assumes "initLoop D BOT (conversationState BOT) ms w = (st, w')"
  shows "\<exists>evs. trace w' = trace w @ evs \<and> (\<forall>e\<in>set evs. init_event BOT (set ms) e)"
proof (cases "heap w (conversationState BOT)")
  case None
  from initLoop_no_state[OF this, of D "conversationState BOT" ms] assms show ?thesis
    by (auto split: if_splits)
next
  case (Some cs)
  from initLoop_frame[OF assms Some] show ?thesis by blast
qed

lemma initStandup_trace:
  assumes "initStandup D BOT w = (st, w')"
  shows "\<exists>r evs w3. trace w' = trace w @ Send ''INIT'' # Connect r # evs
                         @ (if st = None then [Send ''INIT_DONE''] else [])
      \<and> (\<forall>e\<in>set evs. init_event BOT (set (members BOT)) e)
      \<and> heap w' = heap w3 \<and> trace w3 = trace w @ Send ''INIT'' # Connect r # evs
      \<and> (r = Rejects \<longrightarrow> evs = [] \<and> st = Some Rejected \<and> heap w3 = heap w)
      \<and> (r = Resolved () \<longrightarrow> initLoop D BOT (conversationState BOT) (members BOT)
             (w\<lparr>trace := trace w @ [Send ''INIT'', Connect (Resolved ())]\<rparr>) = (st, w3))"
proof (cases "connect_r D (trace w @ [Send ''INIT''])")
  case Rejects
  with assms have "st = Some Rejected" "w' = w\<lparr>trace := trace w @ [Send ''INIT'', Connect Rejects]\<rparr>"
    by (auto simp: initStandup_unfold)
  then show ?thesis
    by (intro exI[of _ Rejects] exI[of _ "[]"] exI[of _ w']) simp
next
  case (Resolved u)
  let ?a = "conversationState BOT"
  let ?w2 = "w\<lparr>trace := trace w @ [Send ''INIT'', Connect (Resolved ())]\<rparr>"
  obtain st3 w3 where loop: "initLoop D BOT ?a (members BOT) ?w2 = (st3, w3)"
    by (cases "initLoop D BOT ?a (members BOT) ?w2")
  from assms Resolved loop have st: "st = st3"
    and w': "w' = (if st3 = None then w3\<lparr>trace := trace w3 @ [Send ''INIT_DONE'']\<rparr> else w3)"
    by (auto simp: initStandup_unfold split: option.splits)
  from initLoop_events[OF loop] obtain evs where evs: "trace w3 = trace ?w2 @ evs"
    "\<forall>e\<in>set evs. init_event BOT (set (members BOT)) e" by blast
  from st w' evs loop show ?thesis
    by (intro exI[of _ "Resolved ()"] exI[of _ evs] exI[of _ w3]) auto
qed

section \<open>Properties\<close>

subsection \<open>initStandup\<close>

lemmas run_defs = initStandup_def initMember_def checkPrevious_def postQuestion_def
  map_user_def emit_def get_user_def createConversationStateMember_def Let_def

text \<open>
  C9: after \<open>initStandup\<close> returns, every member of \<open>BOT.members\<close> has an entry in
  \<open>users\<close>, and it is a created one (its \<open>answers\<close> and \<open>rest\<close> are those of
  \<open>createConversationStateMember\<close>, the latter as \<open>addUserMeta\<close> left it). The entry
  is there as soon as the first call for the member has been issued, whatever that call
  and the later ones return. A member whose conversation could not be opened or whose
  post returned no \<open>ts\<close> holds an empty \<open>INIT\<close> log; the others hold the one
  \<open>ts\<close> that their post returned.
\<close>

theorem initStandup_creates_entries:
  assumes "initStandup D BOT w = (st, w')"
  shows "(\<forall>m r. AddUserMeta m r \<in> set (drop (length (trace w)) (trace w')) \<longrightarrow>
            (\<exists>c. get_user w' (conversationState BOT) m = Some c \<and> answers c = new_answers D))
       \<and> (st = None \<longrightarrow>
            (\<forall>m\<in>set (members BOT). \<exists>c f pre seg post.
                get_user w' (conversationState BOT) m = Some c
              \<and> answers c = new_answers D \<and> rest c = f (new_rest D)
              \<and> trace w' = trace w @ pre @ AddUserMeta m (Resolved ()) # seg @ post
              \<and> ((\<exists>r. seg = [OpenConversation m (Resolved r)] \<and> \<not> truthy r
                       \<and> INIT (botMessages c) = [])
                 \<or> (\<exists>ch r. seg = [OpenConversation m (Resolved (Some ch)),
                                     PostMessage ch (question BOT) (Resolved r)]
                       \<and> \<not> truthy r \<and> INIT (botMessages c) = [])
                 \<or> (\<exists>ch t. t \<noteq> [] \<and> seg = [OpenConversation m (Resolved (Some ch)),
                                     PostMessage ch (question BOT) (Resolved (Some t))]
                       \<and> INIT (botMessages c) = [\<lparr>ts = t\<rparr>]))))"
proof (intro conjI allI impI ballI)
  let ?a = "conversationState BOT"
  let ?w2 = "w\<lparr>trace := trace w @ [Send ''INIT'', Connect (Resolved ())]\<rparr>"
  fix m r
  assume ev: "AddUserMeta m r \<in> set (drop (length (trace w)) (trace w'))"
  from initStandup_trace[OF assms] obtain r0 evs w3 where
    t: "trace w' = trace w @ Send ''INIT'' # Connect r0 # evs
                     @ (if st = None then [Send ''INIT_DONE''] else [])"
       "heap w' = heap w3" "trace w3 = trace w @ Send ''INIT'' # Connect r0 # evs"
       "r0 = Rejects \<longrightarrow> evs = [] \<and> st = Some Rejected \<and> heap w3 = heap w"
       "r0 = Resolved () \<longrightarrow> initLoop D BOT ?a (members BOT) ?w2 = (st, w3)"
    by blast
  from ev t(1) have in_evs: "AddUserMeta m r \<in> set evs" by (auto split: if_splits)
  with t(4) have "r0 = Resolved ()" by (cases r0) auto
  with t(5) have loop: "initLoop D BOT ?a (members BOT) ?w2 = (st, w3)" by simp
  from in_evs t(3) \<open>r0 = Resolved ()\<close>
  have "AddUserMeta m r \<in> set (drop (length (trace ?w2)) (trace w3))" by simp
  from initLoop_started[OF loop this] t(2)
  show "\<exists>c. get_user w' ?a m = Some c \<and> answers c = new_answers D"
    by (simp add: get_user_def)
next
  let ?a = "conversationState BOT"
  let ?w2 = "w\<lparr>trace := trace w @ [Send ''INIT'', Connect (Resolved ())]\<rparr>"
  fix m
  assume "st = None" and m: "m \<in> set (members BOT)"
  with assms have "initStandup D BOT w = (None, w')" by simp
  from initStandup_returns[OF this] obtain w3 where
    loop: "initLoop D BOT ?a (members BOT) ?w2 = (None, w3)"
    and w': "w' = w3\<lparr>trace := trace w3 @ [Send ''INIT_DONE'']\<rparr>" by blast
  from initLoop_member_done[OF loop m] obtain c f pre seg post where
    h: "get_user w3 ?a m = Some c" "answers c = new_answers D" "rest c = f (new_rest D)"
       "trace w3 = trace ?w2 @ pre @ AddUserMeta m (Resolved ()) # seg @ post"
       "(\<exists>r. seg = [OpenConversation m (Resolved r)] \<and> \<not> truthy r \<and> INIT (botMessages c) = [])
       \<or> (\<exists>ch r. ch \<noteq> [] \<and> seg = [OpenConversation m (Resolved (Some ch)),
                                    PostMessage ch (question BOT) (Resolved r)]
            \<and> \<not> truthy r \<and> INIT (botMessages c) = [])
       \<or> (\<exists>ch t. ch \<noteq> [] \<and> t \<noteq> [] \<and> seg = [OpenConversation m (Resolved (Some ch)),
                                    PostMessage ch (question BOT) (Resolved (Some t))]
            \<and> INIT (botMessages c) = [\<lparr>ts = t\<rparr>])"
    by blast
  have g: "get_user w' ?a m = Some c" using h(1) w' by (simp add: get_user_def)
  have t: "trace w' = trace w @ ([Send ''INIT'', Connect (Resolved ())] @ pre)
              @ AddUserMeta m (Resolved ()) # seg @ (post @ [Send ''INIT_DONE''])"
    using h(4) w' by simp
  from h(5) have alt:
    "(\<exists>r. seg = [OpenConversation m (Resolved r)] \<and> \<not> truthy r \<and> INIT (botMessages c) = [])
     \<or> (\<exists>ch r. seg = [OpenConversation m (Resolved (Some ch)),
                         PostMessage ch (question BOT) (Resolved r)]
            \<and> \<not> truthy r \<and> INIT (botMessages c) = [])
     \<or> (\<exists>ch t. t \<noteq> [] \<and> seg = [OpenConversation m (Resolved (Some ch)),
                         PostMessage ch (question BOT) (Resolved (Some t))]
            \<and> INIT (botMessages c) = [\<lparr>ts = t\<rparr>])"
    by blast
  from g h(2,3) t alt
  show "\<exists>c f pre seg post.
                get_user w' ?a m = Some c
              \<and> answers c = new_answers D \<and> rest c = f (new_rest D)
              \<and> trace w' = trace w @ pre @ AddUserMeta m (Resolved ()) # seg @ post
              \<and> ((\<exists>r. seg = [OpenConversation m (Resolved r)] \<and> \<not> truthy r
                       \<and> INIT (botMessages c) = [])
                 \<or> (\<exists>ch r. seg = [OpenConversation m (Resolved (Some ch)),
                                     PostMessage ch (question BOT) (Resolved r)]
                       \<and> \<not> truthy r \<and> INIT (botMessages c) = [])
                 \<or> (\<exists>ch t. t \<noteq> [] \<and> seg = [OpenConversation m (Resolved (Some ch)),
                                     PostMessage ch (question BOT) (Resolved (Some t))]
                       \<and> INIT (botMessages c) = [\<lparr>ts = t\<rparr>]))"
    by blast
qed

lemma post_fails_run:
  "initStandup post_fails_deps sample_bot empty_world =
     (None,
      \<lparr>heap = [0 \<mapsto> \<lparr>users =
          [''U1'' \<mapsto> \<lparr>botMessages = \<lparr>INIT = []\<rparr>, answers = Some [], rest = ()\<rparr>,
           ''U2'' \<mapsto> \<lparr>botMessages = \<lparr>INIT = [\<lparr>ts = ''ts-D-U2''\<rparr>]\<rparr>, answers = Some [], rest = ()\<rparr>]\<rparr>],
       trace =
         [Send ''INIT'', Connect (Resolved ()),
          AddUserMeta ''U1'' (Resolved ()), OpenConversation ''U1'' (Resolved (Some ''D-U1'')),
          PostMessage ''D-U1'' (question sample_bot) (Resolved None),
          AddUserMeta ''U2'' (Resolved ()), OpenConversation ''U2'' (Resolved (Some ''D-U2'')),
          PostMessage ''D-U2'' (question sample_bot) (Resolved (Some ''ts-D-U2'')),
          Send ''INIT_DONE'']\<rparr>)"
  by (simp add: run_defs post_fails_deps_def sample_deps_def sample_bot_def empty_world_def)

theorem initStandup_creates_entries_witness:
  "fst (initStandup post_fails_deps sample_bot empty_world) = None
   \<and> (\<exists>c. get_user (snd (initStandup post_fails_deps sample_bot empty_world)) 0 ''U1'' = Some c
          \<and> answers c = Some [] \<and> INIT (botMessages c) = [])"
proof -
  have run: "initStandup post_fails_deps sample_bot empty_world
               = (None, snd (initStandup post_fails_deps sample_bot empty_world))"
    by (simp add: post_fails_run)
  have "AddUserMeta ''U1'' (Resolved ())
          \<in> set (drop (length (trace empty_world))
                   (trace (snd (initStandup post_fails_deps sample_bot empty_world))))"
    unfolding post_fails_run by (simp add: empty_world_def)
  with initStandup_creates_entries[OF run]
  have "\<exists>c. get_user (snd (initStandup post_fails_deps sample_bot empty_world))
               (conversationState sample_bot) ''U1'' = Some c
           \<and> answers c = new_answers post_fails_deps"
    by blast
  then show ?thesis
    unfolding post_fails_run by (simp add: get_user_def)
qed


lemma question_buttons:
  "map accessory (msg_blocks (question BOT)) =
     [Some \<lparr>button_type = ''button'',
            button_text = \<lparr>text_type = ''plain_text'', text_body = ''Not Working Today''\<rparr>,
            action_id = notButtonId BOT\<rparr>,
      Some \<lparr>button_type = ''button'',
            button_text = \<lparr>text_type = ''plain_text'', text_body = ''Start Standup!''\<rparr>,
            action_id = startButtonId BOT\<rparr>]"
  by (simp add: question_def)

lemma init_event_not_open:
  "init_event BOT (M - {m}) e \<Longrightarrow> e \<noteq> OpenConversation m r"
  by (cases e) auto

lemma init_event_post:
  "init_event BOT M (PostMessage ch q r) \<Longrightarrow> q = question BOT"
  by simp

lemma initMember_returns:
  assumes "initMember D BOT (conversationState BOT) m w = (None, w')"
    and "heap w (conversationState BOT) = Some cs"
  shows "\<exists>c. get_user w' (conversationState BOT) m = Some c
     \<and> (case openConversation_r D (trace w @ [AddUserMeta m (Resolved ())]) m of
          Rejects \<Rightarrow> False
        | Resolved None \<Rightarrow>
            trace w' = trace w @ [AddUserMeta m (Resolved ()), OpenConversation m (Resolved None)]
            \<and> INIT (botMessages c) = []
        | Resolved (Some ch) \<Rightarrow>
            if ch = [] then
              trace w' = trace w @ [AddUserMeta m (Resolved ()), OpenConversation m (Resolved (Some ch))]
              \<and> INIT (botMessages c) = []
            else
              (case postMessage_r D (trace w @ [AddUserMeta m (Resolved ()),
                                                OpenConversation m (Resolved (Some ch))]) ch (question BOT) of
                 Rejects \<Rightarrow> False
               | Resolved None \<Rightarrow>
                   trace w' = trace w @ [AddUserMeta m (Resolved ()),
                                         OpenConversation m (Resolved (Some ch)),
                                         PostMessage ch (question BOT) (Resolved None)]
                   \<and> INIT (botMessages c) = []
               | Resolved (Some t) \<Rightarrow>
                   trace w' = trace w @ [AddUserMeta m (Resolved ()),
                                         OpenConversation m (Resolved (Some ch)),
                                         PostMessage ch (question BOT) (Resolved (Some t))]
                   \<and> INIT (botMessages c) = (if t = [] then [] else [\<lparr>ts = t\<rparr>])))"
  using assms
  by (auto simp: initMember_eq Let_def get_user_def createConversationStateMember_def
           split: outcome.splits option.splits if_splits)

text \<open>
  C5, as stated, fails: \<open>initStandup\<close> does not post for every member. When no
  conversation can be opened with \<open>U1\<close>, the iteration of \<open>U1\<close> ends at line 24: the
  run posts one message only, to \<open>U2\<close>, and returns.
\<close>

theorem member_without_channel_counterexample:
  "initStandup no_channel_deps sample_bot empty_world =
     (None,
      \<lparr>heap = [0 \<mapsto> \<lparr>users =
          [''U1'' \<mapsto> \<lparr>botMessages = \<lparr>INIT = []\<rparr>, answers = Some [], rest = ()\<rparr>,
           ''U2'' \<mapsto> \<lparr>botMessages = \<lparr>INIT = [\<lparr>ts = ''ts-D-U2''\<rparr>]\<rparr>, answers = Some [], rest = ()\<rparr>]\<rparr>],
       trace =
         [Send ''INIT'', Connect (Resolved ()),
          AddUserMeta ''U1'' (Resolved ()), OpenConversation ''U1'' (Resolved None),
          AddUserMeta ''U2'' (Resolved ()), OpenConversation ''U2'' (Resolved (Some ''D-U2'')),
          PostMessage ''D-U2'' (question sample_bot) (Resolved (Some ''ts-D-U2'')),
          Send ''INIT_DONE'']\<rparr>)
   \<and> ''U1'' \<in> set (members sample_bot)
   \<and> length (filter (\<lambda>e. case e of PostMessage ch q r \<Rightarrow> True | _ \<Rightarrow> False)
               (trace (snd (initStandup no_channel_deps sample_bot empty_world)))) = 1"
  by (simp add: run_defs no_channel_deps_def sample_deps_def sample_bot_def empty_world_def)

text \<open>
  C5, amended: in a run that returns, with distinct members, the only
  \<open>openConversation\<close> for a member \<open>m\<close> is the one of its iteration, and what follows
  it is decided by what the gateway answers at that point.
  \<^item> No channel (\<open>undefined\<close> or empty): nothing is posted for \<open>m\<close>, and the \<open>INIT\<close>
    log of \<open>m\<close> is empty.
  \<^item> A channel: the next call is one \<open>postMessage\<close> of the question to that channel. The
    \<open>INIT\<close> log of \<open>m\<close> holds the returned \<open>ts\<close> when the post returned a non-empty
    one, and is empty otherwise.
  In both cases the call that comes next, if any, is not a \<open>postMessage\<close>.
  The question carries exactly two buttons, "Not Working Today" with
  \<open>BOT.notButtonId\<close> and "Start Standup!" with \<open>BOT.startButtonId\<close>.
\<close>

theorem initStandup_posts_and_records:
  assumes "initStandup D BOT w = (None, w')"
    and "distinct (members BOT)"
    and "m \<in> set (members BOT)"
  shows "\<exists>pre post c.
      get_user w' (conversationState BOT) m = Some c
    \<and> (\<forall>e\<in>set (pre @ post). \<forall>r. e \<noteq> OpenConversation m r)
    \<and> (\<forall>ch q r post'. post \<noteq> PostMessage ch q r # post')
    \<and> (case openConversation_r D (trace w @ pre) m of
          Rejects \<Rightarrow> False
        | Resolved None \<Rightarrow>
            trace w' = trace w @ pre @ OpenConversation m (Resolved None) # post
            \<and> INIT (botMessages c) = []
        | Resolved (Some ch) \<Rightarrow>
            if ch = [] then
              trace w' = trace w @ pre @ OpenConversation m (Resolved (Some ch)) # post
              \<and> INIT (botMessages c) = []
            else
              (case postMessage_r D (trace w @ pre @ [OpenConversation m (Resolved (Some ch))])
                      ch (question BOT) of
                 Rejects \<Rightarrow> False
               | Resolved None \<Rightarrow>
                   trace w' = trace w @ pre @ OpenConversation m (Resolved (Some ch))
                                # PostMessage ch (question BOT) (Resolved None) # post
                   \<and> INIT (botMessages c) = []
               | Resolved (Some t) \<Rightarrow>
                   trace w' = trace w @ pre @ OpenConversation m (Resolved (Some ch))
                                # PostMessage ch (question BOT) (Resolved (Some t)) # post
                   \<and> INIT (botMessages c) = (if t = [] then [] else [\<lparr>ts = t\<rparr>])))
    \<and> map accessory (msg_blocks (question BOT)) =
         [Some \<lparr>button_type = ''button'',
                button_text = \<lparr>text_type = ''plain_text'', text_body = ''Not Working Today''\<rparr>,
                action_id = notButtonId BOT\<rparr>,
          Some \<lparr>button_type = ''button'',
                button_text = \<lparr>text_type = ''plain_text'', text_body = ''Start Standup!''\<rparr>,
                action_id = startButtonId BOT\<rparr>]"
proof -
  let ?a = "conversationState BOT"
  let ?M = "set (members BOT)"
  let ?w2 = "w\<lparr>trace := trace w @ [Send ''INIT'', Connect (Resolved ())]\<rparr>"
  from initStandup_returns[OF assms(1)] obtain w3 where
    loop: "initLoop D BOT ?a (members BOT) ?w2 = (None, w3)"
    and w': "w' = w3\<lparr>trace := trace w3 @ [Send ''INIT_DONE'']\<rparr>" by blast
  have "heap ?w2 ?a \<noteq> None"
  proof
    assume "heap ?w2 ?a = None"
    from initLoop_no_state[OF this, of D ?a "members BOT"] loop assms(3) show False
      by (auto split: if_splits)
  qed
  then obtain cs where cs: "heap ?w2 ?a = Some cs" by auto
  from initLoop_member[OF loop cs assms(3)] assms(2) obtain w1 wm cs1 pre0 post0 where
    d: "initMember D BOT ?a m w1 = (None, wm)" "heap w1 ?a = Some cs1"
       "trace w1 = trace ?w2 @ pre0" "trace w3 = trace wm @ post0"
       "get_user w3 ?a m = get_user wm ?a m"
       "\<forall>e\<in>set post0. init_event BOT (?M - {m}) e"
       "\<forall>e\<in>set pre0. init_event BOT (?M - {m}) e"
       "post0 = [] \<or> (\<exists>m' r post'. post0 = AddUserMeta m' r # post')"
    by blast
  let ?pre = "[Send ''INIT'', Connect (Resolved ())] @ pre0 @ [AddUserMeta m (Resolved ())]"
  let ?post = "post0 @ [Send ''INIT_DONE'']"
  from initMember_returns[OF d(1,2)] obtain c where
    g: "get_user wm ?a m = Some c"
    and k: "case openConversation_r D (trace w1 @ [AddUserMeta m (Resolved ())]) m of
          Rejects \<Rightarrow> False
        | Resolved None \<Rightarrow>
            trace wm = trace w1 @ [AddUserMeta m (Resolved ()), OpenConversation m (Resolved None)]
            \<and> INIT (botMessages c) = []
        | Resolved (Some ch) \<Rightarrow>
            if ch = [] then
              trace wm = trace w1 @ [AddUserMeta m (Resolved ()), OpenConversation m (Resolved (Some ch))]
              \<and> INIT (botMessages c) = []
            else
              (case postMessage_r D (trace w1 @ [AddUserMeta m (Resolved ()),
                                                OpenConversation m (Resolved (Some ch))]) ch (question BOT) of
                 Rejects \<Rightarrow> False
               | Resolved None \<Rightarrow>
                   trace wm = trace w1 @ [AddUserMeta m (Resolved ()),
                                         OpenConversation m (Resolved (Some ch)),
                                         PostMessage ch (question BOT) (Resolved None)]
                   \<and> INIT (botMessages c) = []
               | Resolved (Some t) \<Rightarrow>
                   trace wm = trace w1 @ [AddUserMeta m (Resolved ()),
                                         OpenConversation m (Resolved (Some ch)),
                                         PostMessage ch (question BOT) (Resolved (Some t))]
                   \<and> INIT (botMessages c) = (if t = [] then [] else [\<lparr>ts = t\<rparr>]))"
    by blast
  have tr: "trace w' = trace wm @ ?post" using d(4) w' by simp
  have g': "get_user w' ?a m = Some c" using g d(5) w' by (simp add: get_user_def)
  have u: "\<forall>e\<in>set (?pre @ ?post). \<forall>r. e \<noteq> OpenConversation m r"
    using d(6,7) by (auto dest: init_event_not_open)
  have k': "case openConversation_r D (trace w @ ?pre) m of
          Rejects \<Rightarrow> False
        | Resolved None \<Rightarrow>
            trace w' = trace w @ ?pre @ OpenConversation m (Resolved None) # ?post
            \<and> INIT (botMessages c) = []
        | Resolved (Some ch) \<Rightarrow>
            if ch = [] then
              trace w' = trace w @ ?pre @ OpenConversation m (Resolved (Some ch)) # ?post
              \<and> INIT (botMessages c) = []
            else
              (case postMessage_r D (trace w @ ?pre @ [OpenConversation m (Resolved (Some ch))])
                      ch (question BOT) of
                 Rejects \<Rightarrow> False
               | Resolved None \<Rightarrow>
                   trace w' = trace w @ ?pre @ OpenConversation m (Resolved (Some ch))
                                # PostMessage ch (question BOT) (Resolved None) # ?post
                   \<and> INIT (botMessages c) = []
               | Resolved (Some t) \<Rightarrow>
                   trace w' = trace w @ ?pre @ OpenConversation m (Resolved (Some ch))
                                # PostMessage ch (question BOT) (Resolved (Some t)) # ?post
                   \<and> INIT (botMessages c) = (if t = [] then [] else [\<lparr>ts = t\<rparr>]))"
    using k d(3) tr
    by (auto split: outcome.splits option.splits if_splits)
  have n: "\<forall>ch q r post'. ?post \<noteq> PostMessage ch q r # post'"
    using d(8) by auto
  show ?thesis
    by (rule exI[of _ ?pre], rule exI[of _ ?post], rule exI[of _ c])
       (intro conjI g' u n k' question_buttons)
qed

lemma sample_run:
  "initStandup sample_deps sample_bot empty_world =
     (None,
      \<lparr>heap = [0 \<mapsto> \<lparr>users =
          [''U1'' \<mapsto> \<lparr>botMessages = \<lparr>INIT = [\<lparr>ts = ''ts-D-U1''\<rparr>]\<rparr>, answers = Some [], rest = ()\<rparr>,
           ''U2'' \<mapsto> \<lparr>botMessages = \<lparr>INIT = [\<lparr>ts = ''ts-D-U2''\<rparr>]\<rparr>, answers = Some [], rest = ()\<rparr>]\<rparr>],
       trace =
         [Send ''INIT'', Connect (Resolved ()),
          AddUserMeta ''U1'' (Resolved ()), OpenConversation ''U1'' (Resolved (Some ''D-U1'')),
          PostMessage ''D-U1'' (question sample_bot) (Resolved (Some ''ts-D-U1'')),
          AddUserMeta ''U2'' (Resolved ()), OpenConversation ''U2'' (Resolved (Some ''D-U2'')),
          PostMessage ''D-U2'' (question sample_bot) (Resolved (Some ''ts-D-U2'')),
          Send ''INIT_DONE'']\<rparr>)"
  by (simp add: run_defs sample_deps_def sample_bot_def empty_world_def)

theorem initStandup_posts_and_records_witness:
  "initStandup sample_deps sample_bot empty_world
     = (None, snd (initStandup sample_deps sample_bot empty_world))
   \<and> distinct (members sample_bot)
   \<and> ''U2'' \<in> set (members sample_bot)
   \<and> (\<exists>pre post c.
          get_user (snd (initStandup sample_deps sample_bot empty_world))
            (conversationState sample_bot) ''U2'' = Some c
        \<and> trace (snd (initStandup sample_deps sample_bot empty_world))
            = trace empty_world @ pre @ OpenConversation ''U2'' (Resolved (Some ''D-U2''))
                # PostMessage ''D-U2'' (question sample_bot) (Resolved (Some ''ts-D-U2'')) # post
        \<and> INIT (botMessages c) = [\<lparr>ts = ''ts-D-U2''\<rparr>])"
proof -
  let ?w' = "snd (initStandup sample_deps sample_bot empty_world)"
  have run: "initStandup sample_deps sample_bot empty_world = (None, ?w')"
    by (simp add: sample_run)
  have d: "distinct (members sample_bot)" by (simp add: sample_bot_def)
  have m: "''U2'' \<in> set (members sample_bot)" by (simp add: sample_bot_def)
  have o: "\<And>h. openConversation_r sample_deps h ''U2'' = Resolved (Some ''D-U2'')"
    by (simp add: sample_deps_def)
  have p: "\<And>h q. postMessage_r sample_deps h ''D-U2'' q = Resolved (Some ''ts-D-U2'')"
    by (simp add: sample_deps_def)
  from initStandup_posts_and_records[OF run d m] obtain pre post c where
    g: "get_user ?w' (conversationState sample_bot) ''U2'' = Some c"
    and "\<forall>ch q r post'. post \<noteq> PostMessage ch q r # post'"
    and k: "case openConversation_r sample_deps (trace empty_world @ pre) ''U2'' of
          Rejects \<Rightarrow> False
        | Resolved None \<Rightarrow>
            trace ?w' = trace empty_world @ pre @ OpenConversation ''U2'' (Resolved None) # post
            \<and> INIT (botMessages c) = []
        | Resolved (Some ch) \<Rightarrow>
            if ch = [] then
              trace ?w' = trace empty_world @ pre @ OpenConversation ''U2'' (Resolved (Some ch)) # post
              \<and> INIT (botMessages c) = []
            else
              (case postMessage_r sample_deps
                      (trace empty_world @ pre @ [OpenConversation ''U2'' (Resolved (Some ch))])
                      ch (question sample_bot) of
                 Rejects \<Rightarrow> False
               | Resolved None \<Rightarrow>
                   trace ?w' = trace empty_world @ pre @ OpenConversation ''U2'' (Resolved (Some ch))
                                # PostMessage ch (question sample_bot) (Resolved None) # post
                   \<and> INIT (botMessages c) = []
               | Resolved (Some t) \<Rightarrow>
                   trace ?w' = trace empty_world @ pre @ OpenConversation ''U2'' (Resolved (Some ch))
                                # PostMessage ch (question sample_bot) (Resolved (Some t)) # post
                   \<and> INIT (botMessages c) = (if t = [] then [] else [\<lparr>ts = t\<rparr>]))"
    by (elim exE conjE) (rule that)
  from k have t: "trace ?w' = trace empty_world @ pre @ OpenConversation ''U2'' (Resolved (Some ''D-U2''))
                # PostMessage ''D-U2'' (question sample_bot) (Resolved (Some ''ts-D-U2'')) # post"
    and i: "INIT (botMessages c) = [\<lparr>ts = ''ts-D-U2''\<rparr>]"
    by (simp_all add: o p)
  have "\<exists>pre post c.
          get_user ?w' (conversationState sample_bot) ''U2'' = Some c
        \<and> trace ?w' = trace empty_world @ pre @ OpenConversation ''U2'' (Resolved (Some ''D-U2''))
                # PostMessage ''D-U2'' (question sample_bot) (Resolved (Some ''ts-D-U2'')) # post
        \<and> INIT (botMessages c) = [\<lparr>ts = ''ts-D-U2''\<rparr>]"
    by (rule exI[of _ pre], rule exI[of _ post], rule exI[of _ c]) (intro conjI g t i)
  with run d m show ?thesis by (intro conjI)
qed


lemma init_event_not_update: "init_event BOT M e \<Longrightarrow> e \<noteq> UpdateMessage ch t q r"
  by (cases e) auto









lemma post_rejects_run:
  "initStandup post_rejects_deps sample_bot empty_world =
     (Some Rejected,
      \<lparr>heap = [0 \<mapsto> \<lparr>users =
          [''U1'' \<mapsto> \<lparr>botMessages = \<lparr>INIT = []\<rparr>, answers = Some [], rest = ()\<rparr>]\<rparr>],
       trace =
         [Send ''INIT'', Connect (Resolved ()),
          AddUserMeta ''U1'' (Resolved ()), OpenConversation ''U1'' (Resolved (Some ''D-U1'')),
          PostMessage ''D-U1'' (question sample_bot) Rejects]\<rparr>)"
  by (simp add: run_defs post_rejects_deps_def sample_deps_def sample_bot_def empty_world_def)

text \<open>
  C8, as stated, fails: the loop awaits every call before it makes the next one. On the
  sample gateway the three calls for \<open>U2\<close> come after the post to \<open>U1\<close> has returned;
  and when the post to \<open>U1\<close> rejects, the run ends there and no call for \<open>U2\<close> is
  ever made.
\<close>

theorem initiation_is_serialized_counterexample:
  "trace (snd (initStandup sample_deps sample_bot empty_world)) =
     [Send ''INIT'', Connect (Resolved ()),
      AddUserMeta ''U1'' (Resolved ()), OpenConversation ''U1'' (Resolved (Some ''D-U1'')),
      PostMessage ''D-U1'' (question sample_bot) (Resolved (Some ''ts-D-U1'')),
      AddUserMeta ''U2'' (Resolved ()), OpenConversation ''U2'' (Resolved (Some ''D-U2'')),
      PostMessage ''D-U2'' (question sample_bot) (Resolved (Some ''ts-D-U2'')),
      Send ''INIT_DONE'']
   \<and> initStandup post_rejects_deps sample_bot empty_world =
     (Some Rejected,
      \<lparr>heap = [0 \<mapsto> \<lparr>users =
          [''U1'' \<mapsto> \<lparr>botMessages = \<lparr>INIT = []\<rparr>, answers = Some [], rest = ()\<rparr>]\<rparr>],
       trace =
         [Send ''INIT'', Connect (Resolved ()),
          AddUserMeta ''U1'' (Resolved ()), OpenConversation ''U1'' (Resolved (Some ''D-U1'')),
          PostMessage ''D-U1'' (question sample_bot) Rejects]\<rparr>)
   \<and> filter (\<lambda>e. case e of AddUserMeta m r \<Rightarrow> m = ''U2'' | OpenConversation m r \<Rightarrow> m = ''U2''
                         | PostMessage ch q r \<Rightarrow> ch = ''D-U2'' | _ \<Rightarrow> False)
        (trace (snd (initStandup post_rejects_deps sample_bot empty_world))) = []"
  unfolding sample_run post_rejects_run by simp

text \<open>
  C8, amended: the members are initiated one after the other, in the order of
  \<open>BOT.members\<close>. Running the loop over \<open>ms1 @ ms2\<close> is running it over \<open>ms1\<close> and
  then, from the state and the call history that this left, over \<open>ms2\<close>: all calls for
  members of \<open>ms1\<close> precede all calls for members of \<open>ms2\<close>, and when a call for a
  member of \<open>ms1\<close> rejects, no call is made for \<open>ms2\<close>.
\<close>

theorem members_initiated_in_sequence:
  assumes "initLoop D BOT (conversationState BOT) (ms1 @ ms2) w = (st, w')"
  shows "\<exists>st1 w1 evs1 evs2.
      initLoop D BOT (conversationState BOT) ms1 w = (st1, w1)
    \<and> trace w1 = trace w @ evs1 \<and> trace w' = trace w1 @ evs2
    \<and> (\<forall>e\<in>set evs1. init_event BOT (set ms1) e)
    \<and> (\<forall>e\<in>set evs2. init_event BOT (set ms2) e)
    \<and> (case st1 of
          None \<Rightarrow> initLoop D BOT (conversationState BOT) ms2 w1 = (st, w')
        | Some e \<Rightarrow> st = Some e \<and> w' = w1)"
proof -
  let ?a = "conversationState BOT"
  obtain st1 w1 where l1: "initLoop D BOT ?a ms1 w = (st1, w1)"
    by (cases "initLoop D BOT ?a ms1 w")
  from initLoop_events[OF l1] obtain evs1 where
    e1: "trace w1 = trace w @ evs1" "\<forall>e\<in>set evs1. init_event BOT (set ms1) e" by blast
  show ?thesis
  proof (cases st1)
    case (Some e)
    with assms l1 have r: "st = Some e \<and> w' = w1" by (simp add: initLoop_append)
    then have c: "case st1 of None \<Rightarrow> initLoop D BOT ?a ms2 w1 = (st, w')
                  | Some e \<Rightarrow> st = Some e \<and> w' = w1"
      using Some by simp
    have t: "trace w' = trace w1 @ []" using r by simp
    have e2: "\<forall>e\<in>set []. init_event BOT (set ms2) e" by simp
    show ?thesis
      by (rule exI[of _ st1], rule exI[of _ w1], rule exI[of _ evs1], rule exI[of _ "[]"])
         (intro conjI l1 e1 t e2 c)
  next
    case None
    with assms l1 have l2: "initLoop D BOT ?a ms2 w1 = (st, w')" by (simp add: initLoop_append)
    from initLoop_events[OF l2] obtain evs2 where
      e2: "trace w' = trace w1 @ evs2" "\<forall>e\<in>set evs2. init_event BOT (set ms2) e" by blast
    have c: "case st1 of None \<Rightarrow> initLoop D BOT ?a ms2 w1 = (st, w')
                  | Some e \<Rightarrow> st = Some e \<and> w' = w1"
      using None l2 by simp
    show ?thesis
      by (rule exI[of _ st1], rule exI[of _ w1], rule exI[of _ evs1], rule exI[of _ evs2])
         (intro conjI l1 e1 e2 c)
  qed
qed

theorem members_initiated_in_sequence_witness:
  "initLoop post_rejects_deps sample_bot (conversationState sample_bot) ([''U1''] @ [''U2'']) empty_world
     = (Some Rejected,
        snd (initLoop post_rejects_deps sample_bot (conversationState sample_bot) [''U1''] empty_world))
   \<and> trace (snd (initLoop post_rejects_deps sample_bot (conversationState sample_bot) [''U1''] empty_world))
       = [AddUserMeta ''U1'' (Resolved ()), OpenConversation ''U1'' (Resolved (Some ''D-U1'')),
          PostMessage ''D-U1'' (question sample_bot) Rejects]"
proof -
  let ?a = "conversationState sample_bot"
  let ?l1 = "initLoop post_rejects_deps sample_bot ?a [''U1''] empty_world"
  let ?l = "initLoop post_rejects_deps sample_bot ?a ([''U1''] @ [''U2'']) empty_world"
  have one: "?l1 =
     (Some Rejected,
      \<lparr>heap = [0 \<mapsto> \<lparr>users =
          [''U1'' \<mapsto> \<lparr>botMessages = \<lparr>INIT = []\<rparr>, answers = Some [], rest = ()\<rparr>]\<rparr>],
       trace =
         [AddUserMeta ''U1'' (Resolved ()), OpenConversation ''U1'' (Resolved (Some ''D-U1'')),
          PostMessage ''D-U1'' (question sample_bot) Rejects]\<rparr>)"
    by (simp add: run_defs post_rejects_deps_def sample_deps_def sample_bot_def empty_world_def)
  have run: "?l = (fst ?l, snd ?l)" by simp
  from members_initiated_in_sequence[OF run] obtain st1 w1 where
    h: "?l1 = (st1, w1)"
       "case st1 of None \<Rightarrow> initLoop post_rejects_deps sample_bot ?a [''U2''] w1 = (fst ?l, snd ?l)
        | Some e \<Rightarrow> fst ?l = Some e \<and> snd ?l = w1"
    by blast
  from h(1) have st1: "st1 = Some Rejected" and w1: "w1 = snd ?l1"
    unfolding one by simp_all
  from h(2) st1 w1 have "fst ?l = Some Rejected" "snd ?l = snd ?l1" by simp_all
  then have a: "?l = (Some Rejected, snd ?l1)" by (metis prod.collapse)
  have b: "trace (snd ?l1) = [AddUserMeta ''U1'' (Resolved ()), OpenConversation ''U1'' (Resolved (Some ''D-U1'')),
          PostMessage ''D-U1'' (question sample_bot) Rejects]"
    unfolding one by simp
  from a b show ?thesis by (rule conjI)
qed

text \<open>
  No run of \<open>initStandup\<close> calls \<open>updateMessage\<close>, whatever the state it starts from:
  \<open>prevConversationState\<close> is the object \<open>BOT.conversationState\<close> itself, and line 17
  has replaced the member's entry in it by a created one before line 27 looks for a
  previously posted message.
\<close>

lemma initStandup_issues_no_update:
  assumes "initStandup D BOT w = (st, w')"
  shows "\<exists>evs. trace w' = trace w @ evs \<and> (\<forall>e\<in>set evs. \<forall>ch t q r. e \<noteq> UpdateMessage ch t q r)"
proof -
  from initStandup_trace[OF assms] obtain r0 evs0 where
    t: "trace w' = trace w @ Send ''INIT'' # Connect r0 # evs0
                     @ (if st = None then [Send ''INIT_DONE''] else [])"
    and ev: "\<forall>e\<in>set evs0. init_event BOT (set (members BOT)) e"
    by blast
  let ?evs = "Send ''INIT'' # Connect r0 # evs0 @ (if st = None then [Send ''INIT_DONE''] else [])"
  have "\<forall>e\<in>set ?evs. \<forall>ch t q r. e \<noteq> UpdateMessage ch t q r"
    using ev by (auto dest: init_event_not_update)
  with t show ?thesis by blast
qed

text \<open>
  The check itself works when it is given a copy of the prior state: with the recovered
  state also stored at another address, and that address passed as
  \<open>prevConversationState\<close>, the iteration edits \<open>100.1\<close> to the placeholder before it
  posts.
\<close>

lemma copy_would_supersede:
  "trace (snd (initMember sample_deps sample_bot 1 ''U1''
                 (recovered_world\<lparr>heap := (heap recovered_world)(1 := heap recovered_world 0)\<rparr>))) =
     [AddUserMeta ''U1'' (Resolved ()), OpenConversation ''U1'' (Resolved (Some ''D-U1'')),
      UpdateMessage ''D-U1'' ''100.1'' placeholder (Resolved ()),
      PostMessage ''D-U1'' (question sample_bot) (Resolved (Some ''ts-D-U1''))]"
  by (simp add: run_defs sample_deps_def sample_bot_def recovered_world_def)

text \<open>
  C1: the code at the recovered state. \<open>U1\<close> holds the live prompt \<open>100.1\<close>; the run
  posts a new prompt \<open>ts-D-U1\<close> and records it, and no \<open>updateMessage\<close> is issued
  against \<open>100.1\<close>, which therefore stays as it was posted, with its two buttons.
\<close>

theorem recovery_issues_no_update:
  "get_user recovered_world 0 ''U1''
     = Some \<lparr>botMessages = \<lparr>INIT = [\<lparr>ts = ''100.1''\<rparr>]\<rparr>, answers = Some [], rest = ()\<rparr>
   \<and> initStandup sample_deps (sample_bot\<lparr>members := [''U1'']\<rparr>) recovered_world =
       (None,
        \<lparr>heap = [0 \<mapsto> \<lparr>users =
            [''U1'' \<mapsto> \<lparr>botMessages = \<lparr>INIT = [\<lparr>ts = ''ts-D-U1''\<rparr>]\<rparr>, answers = Some [], rest = ()\<rparr>]\<rparr>],
         trace =
           [Send ''INIT'', Connect (Resolved ()),
            AddUserMeta ''U1'' (Resolved ()), OpenConversation ''U1'' (Resolved (Some ''D-U1'')),
            PostMessage ''D-U1'' (question (sample_bot\<lparr>members := [''U1'']\<rparr>)) (Resolved (Some ''ts-D-U1'')),
            Send ''INIT_DONE'']\<rparr>)
   \<and> filter (\<lambda>e. case e of UpdateMessage ch t q r \<Rightarrow> True | _ \<Rightarrow> False)
        (trace (snd (initStandup sample_deps (sample_bot\<lparr>members := [''U1'']\<rparr>) recovered_world))) = []"
  by (simp add: run_defs sample_deps_def sample_bot_def recovered_world_def)

subsection \<open>The click handlers\<close>

lemmas handler_defs = notWorkingClickHandler_def startStandupClickHandler_def notWorking_def
  map_user_def emit_def get_user_def Let_def

lemma notWorkingClickHandler_wellformed:
  assumes "channel_id b = Some ch" "ch \<noteq> []" "message_ts b = Some (Some t)" "t \<noteq> []"
    and "user_id b = Some m"
    and "heap w (conversationState BOT) = Some cs" "users cs m = Some c"
  shows "notWorkingClickHandler D BOT (Some b) w =
     (case ack_r D (trace w) of
        Rejects \<Rightarrow> (Some Rejected, w\<lparr>trace := trace w @ [Ack Rejects]\<rparr>)
      | Resolved _ \<Rightarrow>
          (case updateMessage_r D (trace w @ [Ack (Resolved ())]) ch t (notWorking_content D) of
             Rejects \<Rightarrow>
               (Some Rejected,
                w\<lparr>trace := trace w @ [Ack (Resolved ()),
                                       UpdateMessage ch t (notWorking_content D) Rejects]\<rparr>)
           | Resolved _ \<Rightarrow>
               (None,
                w\<lparr>heap := (heap w)(conversationState BOT \<mapsto>
                             cs\<lparr>users := (users cs)(m \<mapsto> c\<lparr>answers := None\<rparr>)\<rparr>),
                  trace := trace w @ [Ack (Resolved ()),
                                       UpdateMessage ch t (notWorking_content D) (Resolved ()),
                                       Send ''NOT_WORKING'']\<rparr>)))"
  using assms by (simp add: handler_defs split: outcome.splits)

text \<open>
  C4, as stated, fails. \<open>U1\<close> awaits its choice and clicks "not working" on its
  prompt, but the edit of the prompt rejects: the handler ends there, the \<open>answers\<close> of
  \<open>U1\<close> are not set to \<open>null\<close> and \<open>NOT_WORKING\<close> is not sent. Nor is the opted-out
  state terminal for the handlers: once \<open>U1\<close> has opted out, a further "not working"
  click is handled again in full, and a "start standup" click is passed on to
  \<open>startStandup\<close>.
\<close>

theorem opt_out_needs_the_edit_counterexample:
  "get_user awaiting_world 0 ''U1''
     = Some \<lparr>botMessages = \<lparr>INIT = [\<lparr>ts = ''ts-D-U1''\<rparr>]\<rparr>, answers = Some [], rest = ()\<rparr>
   \<and> notWorkingClickHandler edit_rejects_deps sample_bot
         (Some (click ''D-U1'' ''ts-D-U1'' ''U1'')) awaiting_world =
       (Some Rejected,
        \<lparr>heap = heap awaiting_world,
         trace = [Ack (Resolved ()),
                  UpdateMessage ''D-U1'' ''ts-D-U1'' (notWorking_content edit_rejects_deps) Rejects]\<rparr>)
   \<and> get_user opted_out_world 0 ''U1''
     = Some \<lparr>botMessages = \<lparr>INIT = [\<lparr>ts = ''ts-D-U1''\<rparr>]\<rparr>, answers = None, rest = ()\<rparr>
   \<and> notWorkingClickHandler sample_deps sample_bot
         (Some (click ''D-U1'' ''ts-D-U1'' ''U1'')) opted_out_world =
       (None,
        \<lparr>heap = heap opted_out_world,
         trace = [Ack (Resolved ()),
                  UpdateMessage ''D-U1'' ''ts-D-U1'' (notWorking_content sample_deps) (Resolved ()),
                  Send ''NOT_WORKING'']\<rparr>)
   \<and> startStandupClickHandler sample_deps sample_bot
         (Some (click ''D-U1'' ''ts-D-U1'' ''U1'')) opted_out_world =
       (None,
        \<lparr>heap = heap opted_out_world,
         trace = [Ack (Resolved ()), StartStandup ''D-U1'' ''ts-D-U1'' ''U1'' (Resolved ())]\<rparr>)"
  by (simp add: handler_defs click_def awaiting_world_def opted_out_world_def
        edit_rejects_deps_def sample_deps_def sample_bot_def)

text \<open>
  C4, amended: a "not working" click, with channel id and \<open>ts\<close>, by a member \<open>m\<close> whose
  entry holds the clicked message as its init message. The handler acknowledges, then
  edits that message to the acknowledgment of \<open>notWorking\<close>, which has no button. When
  both calls resolve it sets the \<open>answers\<close> of \<open>m\<close> to \<open>null\<close>, leaves the rest of the
  entry as it was, and sends \<open>NOT_WORKING\<close>. When the acknowledgment or the edit
  rejects, the handler ends there and the conversation state is unchanged.
\<close>

theorem notWorking_click_opts_out:
  assumes "channel_id b = Some ch" "ch \<noteq> []" "message_ts b = Some (Some t)" "t \<noteq> []"
    and "user_id b = Some m"
    and "heap w (conversationState BOT) = Some cs" "users cs m = Some c"
    and "INIT (botMessages c) = [\<lparr>ts = t\<rparr>]"
  shows "notWorkingClickHandler D BOT (Some b) w =
     (case ack_r D (trace w) of
        Rejects \<Rightarrow> (Some Rejected, w\<lparr>trace := trace w @ [Ack Rejects]\<rparr>)
      | Resolved _ \<Rightarrow>
          (case updateMessage_r D (trace w @ [Ack (Resolved ())]) ch t (notWorking_content D) of
             Rejects \<Rightarrow>
               (Some Rejected,
                w\<lparr>trace := trace w @ [Ack (Resolved ()),
                                       UpdateMessage ch t (notWorking_content D) Rejects]\<rparr>)
           | Resolved _ \<Rightarrow>
               (None,
                w\<lparr>heap := (heap w)(conversationState BOT \<mapsto>
                             cs\<lparr>users := (users cs)(m \<mapsto>
                               \<lparr>botMessages = \<lparr>INIT = [\<lparr>ts = t\<rparr>]\<rparr>, answers = None, rest = rest c\<rparr>)\<rparr>),
                  trace := trace w @ [Ack (Resolved ()),
                                       UpdateMessage ch t (notWorking_content D) (Resolved ()),
                                       Send ''NOT_WORKING'']\<rparr>)))
   \<and> map accessory (msg_blocks (notWorking_content D)) = [None]"
proof -
  have "c\<lparr>answers := None\<rparr> = \<lparr>botMessages = \<lparr>INIT = [\<lparr>ts = t\<rparr>]\<rparr>, answers = None, rest = rest c\<rparr>"
    using assms(8) by (cases c) simp
  with notWorkingClickHandler_wellformed[OF assms(1-7), of D] show ?thesis
    by (simp add: notWorking_content_def split: outcome.splits)
qed

theorem notWorking_click_opts_out_witness:
  "notWorkingClickHandler sample_deps sample_bot (Some (click ''D-U1'' ''ts-D-U1'' ''U1'')) awaiting_world =
     (None,
      \<lparr>heap = [0 \<mapsto> \<lparr>users = [''U1'' \<mapsto>
          \<lparr>botMessages = \<lparr>INIT = [\<lparr>ts = ''ts-D-U1''\<rparr>]\<rparr>, answers = None, rest = ()\<rparr>]\<rparr>],
       trace = [Ack (Resolved ()),
                UpdateMessage ''D-U1'' ''ts-D-U1'' (notWorking_content sample_deps) (Resolved ()),
                Send ''NOT_WORKING'']\<rparr>)"
proof -
  let ?c = "\<lparr>botMessages = \<lparr>INIT = [\<lparr>ts = ''ts-D-U1''\<rparr>]\<rparr>, answers = Some ([] :: string list), rest = ()\<rparr>"
  let ?cs = "\<lparr>users = [''U1'' \<mapsto> ?c]\<rparr>"
  let ?b = "click ''D-U1'' ''ts-D-U1'' ''U1''"
  have 1: "channel_id ?b = Some ''D-U1''" by (simp add: click_def)
  have 2: "''D-U1'' \<noteq> []" by simp
  have 3: "message_ts ?b = Some (Some ''ts-D-U1'')" by (simp add: click_def)
  have 4: "''ts-D-U1'' \<noteq> []" by simp
  have 5: "user_id ?b = Some ''U1''" by (simp add: click_def)
  have 6: "heap awaiting_world (conversationState sample_bot) = Some ?cs"
    by (simp add: awaiting_world_def sample_bot_def)
  have 7: "users ?cs ''U1'' = Some ?c" by simp
  have 8: "INIT (botMessages ?c) = [\<lparr>ts = ''ts-D-U1''\<rparr>]" by simp
  have a: "ack_r sample_deps (trace awaiting_world) = Resolved ()" by (simp add: sample_deps_def)
  have u: "updateMessage_r sample_deps (trace awaiting_world @ [Ack (Resolved ())]) ''D-U1'' ''ts-D-U1''
              (notWorking_content sample_deps) = Resolved ()" by (simp add: sample_deps_def)
  have s: "conversationState sample_bot = 0" by (simp add: sample_bot_def)
  from notWorking_click_opts_out[OF 1 2 3 4 5 6 7 8, of sample_deps] show ?thesis
    unfolding a u s by (simp add: awaiting_world_def)
qed

text \<open>
  C2, as stated, fails. A click by \<open>U1\<close> on the message \<open>100.1\<close>, which is not the
  prompt \<open>ts-D-U1\<close> that \<open>U1\<close> holds, is handled like any other: the message is edited
  and the \<open>answers\<close> of \<open>U1\<close> become \<open>null\<close>. A click by \<open>U9\<close>, who has no entry,
  ends in a \<open>TypeError\<close> after the message has been edited.
\<close>

theorem stale_click_mutates_counterexample:
  "get_user awaiting_world 0 ''U1''
     = Some \<lparr>botMessages = \<lparr>INIT = [\<lparr>ts = ''ts-D-U1''\<rparr>]\<rparr>, answers = Some [], rest = ()\<rparr>
   \<and> notWorkingClickHandler sample_deps sample_bot (Some (click ''D-U1'' ''100.1'' ''U1'')) awaiting_world =
       (None,
        \<lparr>heap = [0 \<mapsto> \<lparr>users = [''U1'' \<mapsto>
            \<lparr>botMessages = \<lparr>INIT = [\<lparr>ts = ''ts-D-U1''\<rparr>]\<rparr>, answers = None, rest = ()\<rparr>]\<rparr>],
         trace = [Ack (Resolved ()),
                  UpdateMessage ''D-U1'' ''100.1'' (notWorking_content sample_deps) (Resolved ()),
                  Send ''NOT_WORKING'']\<rparr>)
   \<and> get_user awaiting_world 0 ''U9'' = None
   \<and> notWorkingClickHandler sample_deps sample_bot (Some (click ''D-U9'' ''100.1'' ''U9'')) awaiting_world =
       (Some TypeError,
        \<lparr>heap = heap awaiting_world,
         trace = [Ack (Resolved ()),
                  UpdateMessage ''D-U9'' ''100.1'' (notWorking_content sample_deps) (Resolved ())]\<rparr>)"
  by (simp add: handler_defs click_def awaiting_world_def sample_deps_def sample_bot_def)

text \<open>
  C2, amended: the handler checks neither the state of the member nor the message clicked.
  For a click with a channel id and a message \<open>ts\<close> by a user who has an entry, it
  acknowledges first and then edits the clicked message. When both calls resolve, it sets
  the \<open>answers\<close> of that user to \<open>null\<close>, sends \<open>NOT_WORKING\<close> and returns normally;
  this is the only change of the conversation state, so a user who had already opted out
  leaves the state unchanged. When the acknowledgment or the edit rejects, the handler ends
  with that rejection and the conversation state is unchanged.
\<close>

theorem notWorking_click_unguarded:
  assumes "channel_id b = Some ch" "ch \<noteq> []" "message_ts b = Some (Some t)" "t \<noteq> []"
    and "user_id b = Some m"
    and "heap w (conversationState BOT) = Some cs" "users cs m = Some c"
  shows "notWorkingClickHandler D BOT (Some b) w =
     (case ack_r D (trace w) of
        Rejects \<Rightarrow> (Some Rejected, w\<lparr>trace := trace w @ [Ack Rejects]\<rparr>)
      | Resolved _ \<Rightarrow>
          (case updateMessage_r D (trace w @ [Ack (Resolved ())]) ch t (notWorking_content D) of
             Rejects \<Rightarrow>
               (Some Rejected,
                w\<lparr>trace := trace w @ [Ack (Resolved ()),
                                       UpdateMessage ch t (notWorking_content D) Rejects]\<rparr>)
           | Resolved _ \<Rightarrow>
               (None,
                w\<lparr>heap := (heap w)(conversationState BOT \<mapsto>
                             cs\<lparr>users := (users cs)(m \<mapsto> c\<lparr>answers := None\<rparr>)\<rparr>),
                  trace := trace w @ [Ack (Resolved ()),
                                       UpdateMessage ch t (notWorking_content D) (Resolved ()),
                                       Send ''NOT_WORKING'']\<rparr>)))
   \<and> (answers c = None \<longrightarrow>
        (heap w)(conversationState BOT \<mapsto> cs\<lparr>users := (users cs)(m \<mapsto> c\<lparr>answers := None\<rparr>)\<rparr>) = heap w)"
proof -
  have same: "answers c = None \<longrightarrow>
        (heap w)(conversationState BOT \<mapsto> cs\<lparr>users := (users cs)(m \<mapsto> c\<lparr>answers := None\<rparr>)\<rparr>) = heap w"
  proof
    assume "answers c = None"
    then have "c\<lparr>answers := None\<rparr> = c" by (cases c) simp
    moreover have "(users cs)(m \<mapsto> c) = users cs" using assms(7) by (rule map_upd_triv)
    moreover have "(heap w)(conversationState BOT \<mapsto> cs) = heap w" using assms(6) by (rule map_upd_triv)
    ultimately show "(heap w)(conversationState BOT \<mapsto> cs\<lparr>users := (users cs)(m \<mapsto> c\<lparr>answers := None\<rparr>)\<rparr>) = heap w"
      by simp
  qed
  from notWorkingClickHandler_wellformed[OF assms, of D] same show ?thesis by (rule conjI)
qed

theorem notWorking_click_unguarded_witness:
  "notWorkingClickHandler sample_deps sample_bot (Some (click ''D-U1'' ''100.1'' ''U1'')) awaiting_world =
     (None,
      \<lparr>heap = [0 \<mapsto> \<lparr>users = [''U1'' \<mapsto>
          \<lparr>botMessages = \<lparr>INIT = [\<lparr>ts = ''ts-D-U1''\<rparr>]\<rparr>, answers = None, rest = ()\<rparr>]\<rparr>],
       trace = [Ack (Resolved ()),
                UpdateMessage ''D-U1'' ''100.1'' (notWorking_content sample_deps) (Resolved ()),
                Send ''NOT_WORKING'']\<rparr>)
   \<and> notWorkingClickHandler edit_rejects_deps sample_bot (Some (click ''D-U1'' ''100.1'' ''U1'')) awaiting_world =
     (Some Rejected,
      awaiting_world\<lparr>trace := trace awaiting_world @ [Ack (Resolved ()),
                UpdateMessage ''D-U1'' ''100.1'' (notWorking_content edit_rejects_deps) Rejects]\<rparr>)"
proof -
  let ?c = "\<lparr>botMessages = \<lparr>INIT = [\<lparr>ts = ''ts-D-U1''\<rparr>]\<rparr>, answers = Some ([] :: string list), rest = ()\<rparr>"
  let ?cs = "\<lparr>users = [''U1'' \<mapsto> ?c]\<rparr>"
  let ?b = "click ''D-U1'' ''100.1'' ''U1''"
  have 1: "channel_id ?b = Some ''D-U1''" by (simp add: click_def)
  have 2: "''D-U1'' \<noteq> []" by simp
  have 3: "message_ts ?b = Some (Some ''100.1'')" by (simp add: click_def)
  have 4: "''100.1'' \<noteq> []" by simp
  have 5: "user_id ?b = Some ''U1''" by (simp add: click_def)
  have 6: "heap awaiting_world (conversationState sample_bot) = Some ?cs"
    by (simp add: awaiting_world_def sample_bot_def)
  have 7: "users ?cs ''U1'' = Some ?c" by simp
  have a: "ack_r sample_deps (trace awaiting_world) = Resolved ()" by (simp add: sample_deps_def)
  have u: "updateMessage_r sample_deps (trace awaiting_world @ [Ack (Resolved ())]) ''D-U1'' ''100.1''
              (notWorking_content sample_deps) = Resolved ()" by (simp add: sample_deps_def)
  have a': "ack_r edit_rejects_deps (trace awaiting_world) = Resolved ()"
    by (simp add: edit_rejects_deps_def sample_deps_def)
  have u': "updateMessage_r edit_rejects_deps (trace awaiting_world @ [Ack (Resolved ())]) ''D-U1'' ''100.1''
              (notWorking_content edit_rejects_deps) = Rejects"
    by (simp add: edit_rejects_deps_def sample_deps_def)
  have s: "conversationState sample_bot = 0" by (simp add: sample_bot_def)
  note h = notWorking_click_unguarded[OF 1 2 3 4 5 6 7]
  from h[of sample_deps] have x: "notWorkingClickHandler sample_deps sample_bot (Some ?b) awaiting_world =
     (None,
      \<lparr>heap = [0 \<mapsto> \<lparr>users = [''U1'' \<mapsto>
          \<lparr>botMessages = \<lparr>INIT = [\<lparr>ts = ''ts-D-U1''\<rparr>]\<rparr>, answers = None, rest = ()\<rparr>]\<rparr>],
       trace = [Ack (Resolved ()),
                UpdateMessage ''D-U1'' ''100.1'' (notWorking_content sample_deps) (Resolved ()),
                Send ''NOT_WORKING'']\<rparr>)"
    unfolding a u s by (simp add: awaiting_world_def)
  from h[of edit_rejects_deps] have y: "notWorkingClickHandler edit_rejects_deps sample_bot (Some ?b) awaiting_world =
     (Some Rejected,
      awaiting_world\<lparr>trace := trace awaiting_world @ [Ack (Resolved ()),
                UpdateMessage ''D-U1'' ''100.1'' (notWorking_content edit_rejects_deps) Rejects]\<rparr>)"
    unfolding a' u' by simp
  from x y show ?thesis by (rule conjI)
qed

lemma notWorkingClickHandler_acks:
  "\<exists>evs. trace (snd (notWorkingClickHandler D BOT bd w)) = trace w @ Ack (ack_r D (trace w)) # evs"
  by (auto simp: handler_defs split: outcome.splits option.splits prod.splits)

lemma startStandupClickHandler_acks:
  "\<exists>evs. trace (snd (startStandupClickHandler D BOT bd w)) = trace w @ Ack (ack_r D (trace w)) # evs"
  by (auto simp: handler_defs split: outcome.splits option.splits prod.splits)

lemma notWorkingClickHandler_malformed:
  assumes "\<not> truthy (case bd of None \<Rightarrow> None | Some b \<Rightarrow> channel_id b)
         \<or> \<not> truthy (case bd of None \<Rightarrow> None | Some b \<Rightarrow>
                        (case message_ts b of None \<Rightarrow> None | Some t \<Rightarrow> t))"
  shows "notWorkingClickHandler D BOT bd w =
           (if ack_r D (trace w) = Rejects then Some Rejected
            else if (case bd of None \<Rightarrow> None | Some b \<Rightarrow> message_ts b) = None then Some TypeError
            else None,
            w\<lparr>trace := trace w @ [Ack (ack_r D (trace w))]\<rparr>)"
  using assms
  by (auto simp: handler_defs split: outcome.splits option.splits prod.splits)

lemma startStandupClickHandler_malformed:
  assumes "\<not> truthy (case bd of None \<Rightarrow> None | Some b \<Rightarrow> channel_id b)
         \<or> \<not> truthy (case bd of None \<Rightarrow> None | Some b \<Rightarrow>
                        (case message_ts b of None \<Rightarrow> None | Some t \<Rightarrow> t))"
  shows "startStandupClickHandler D BOT bd w =
           (if ack_r D (trace w) = Rejects then Some Rejected
            else if (case bd of None \<Rightarrow> None | Some b \<Rightarrow> message_ts b) = None then Some TypeError
            else None,
            w\<lparr>trace := trace w @ [Ack (ack_r D (trace w))]\<rparr>)"
  using assms
  by (auto simp: handler_defs split: outcome.splits option.splits prod.splits)

text \<open>
  C7: both handlers call \<open>ack\<close> before anything else, for any body. When the body lacks
  a channel id or a message \<open>ts\<close> (missing or empty, or the body or its \<open>message\<close> is
  missing altogether), \<open>ack\<close> is the only call made and the conversation state is
  untouched. The handler then returns normally, except that reading \<open>ts\<close> of a missing
  \<open>message\<close> raises a \<open>TypeError\<close> (after the acknowledgment).
\<close>

theorem click_handlers_ack_and_drop:
  assumes "\<not> truthy (case bd of None \<Rightarrow> None | Some b \<Rightarrow> channel_id b)
         \<or> \<not> truthy (case bd of None \<Rightarrow> None | Some b \<Rightarrow>
                        (case message_ts b of None \<Rightarrow> None | Some t \<Rightarrow> t))"
  shows "(\<exists>evs. trace (snd (notWorkingClickHandler D BOT any w))
                  = trace w @ Ack (ack_r D (trace w)) # evs)
       \<and> (\<exists>evs. trace (snd (startStandupClickHandler D BOT any w))
                  = trace w @ Ack (ack_r D (trace w)) # evs)
       \<and> snd (notWorkingClickHandler D BOT bd w) = w\<lparr>trace := trace w @ [Ack (ack_r D (trace w))]\<rparr>
       \<and> snd (startStandupClickHandler D BOT bd w) = w\<lparr>trace := trace w @ [Ack (ack_r D (trace w))]\<rparr>
       \<and> fst (notWorkingClickHandler D BOT bd w) =
           (if ack_r D (trace w) = Rejects then Some Rejected
            else if (case bd of None \<Rightarrow> None | Some b \<Rightarrow> message_ts b) = None then Some TypeError
            else None)
       \<and> fst (startStandupClickHandler D BOT bd w) = fst (notWorkingClickHandler D BOT bd w)"
  using notWorkingClickHandler_acks[of D BOT any w] startStandupClickHandler_acks[of D BOT any w]
  by (simp add: notWorkingClickHandler_malformed[OF assms] startStandupClickHandler_malformed[OF assms])

theorem click_handlers_ack_and_drop_witness:
  "\<not> truthy (channel_id \<lparr>channel_id = None, message_ts = Some (Some ''100.1''), user_id = Some ''U1''\<rparr>)
   \<and> notWorkingClickHandler sample_deps sample_bot
        (Some \<lparr>channel_id = None, message_ts = Some (Some ''100.1''), user_id = Some ''U1''\<rparr>) awaiting_world
       = (None, awaiting_world\<lparr>trace := trace awaiting_world @ [Ack (Resolved ())]\<rparr>)
   \<and> startStandupClickHandler sample_deps sample_bot
        (Some \<lparr>channel_id = None, message_ts = Some (Some ''100.1''), user_id = Some ''U1''\<rparr>) awaiting_world
       = (None, awaiting_world\<lparr>trace := trace awaiting_world @ [Ack (Resolved ())]\<rparr>)"
proof -
  let ?b = "\<lparr>channel_id = None, message_ts = Some (Some ''100.1''), user_id = Some ''U1''\<rparr>"
  let ?bd = "Some ?b"
  have m: "\<not> truthy (case ?bd of None \<Rightarrow> None | Some b \<Rightarrow> channel_id b)
         \<or> \<not> truthy (case ?bd of None \<Rightarrow> None | Some b \<Rightarrow>
                        (case message_ts b of None \<Rightarrow> None | Some t \<Rightarrow> t))"
    by simp
  have a: "ack_r sample_deps (trace awaiting_world) = Resolved ()" by (simp add: sample_deps_def)
  note h = click_handlers_ack_and_drop[OF m, of sample_deps sample_bot ?bd awaiting_world]
  have n: "\<not> truthy (channel_id ?b)" by simp
  have 1: "notWorkingClickHandler sample_deps sample_bot ?bd awaiting_world
       = (None, awaiting_world\<lparr>trace := trace awaiting_world @ [Ack (Resolved ())]\<rparr>)"
    using h a by (simp add: prod_eq_iff)
  have 2: "startStandupClickHandler sample_deps sample_bot ?bd awaiting_world
       = (None, awaiting_world\<lparr>trace := trace awaiting_world @ [Ack (Resolved ())]\<rparr>)"
    using h a by (simp add: prod_eq_iff)
  show ?thesis by (intro conjI n 1 2)
qed

subsection \<open>The standup list page\<close>

text \<open>
  C10: \<open>fetchStandups\<close> never raises. Whatever the query does, it returns a list; when the
  query fails it returns the empty list (and logs the error), and the page then renders
  with the create button and no entry.
\<close>

theorem fetchStandups_never_raises:
  "(\<exists>rows. fst (fetchStandups q) = Inr rows)
   \<and> fetchStandups (Inl e) = (Inr [], [e])
   \<and> (\<exists>page. StandupList q = Inr page)
   \<and> StandupList (Inl e) = Inr [CreateButton ''/standups/create'' ''Create New Standup'']"
  by (cases q) (simp_all add: fetchStandups_def StandupList_def)

end
